theory Spec2Isabelle
  imports Main "HOL-Library.Multiset"
begin

section \<open>Offline data preparation of RLlib (rllib/offline/offline_data.py)\<close>

subsection \<open>Python values, exceptions and containers\<close>

text \<open>
  The exceptions that the Python of \<^verbatim>\<open>offline_data.py\<close> can raise itself. \<open>External\<close> stands
  for any exception raised inside an external collaborator (the dataset reader, a remote call,
  the connector pipeline).
\<close>

datatype error =
    KeyError string
  | IndexError
  | AttributeError string
  | TypeError string
  | UnboundLocalError string
  | ValueError string
  | StopIteration
  | External string

text \<open>Sequencing of fallible steps: the first exception aborts the rest.\<close>

definition sbind :: "error + 'a \<Rightarrow> ('a \<Rightarrow> error + 'b) \<Rightarrow> error + 'b" where
  "sbind x f = (case x of Inl e \<Rightarrow> Inl e | Inr v \<Rightarrow> f v)"

text \<open>
  A cell of a raw batch: \<open>None\<close>, a flag, a number, a string, a dict (the info column), or an
  opaque array payload \<open>'a\<close> (observations, actions, rewards).
\<close>

datatype 'a pyval =
    PyNone
  | PyBool bool
  | PyInt int
  | PyStr string
  | PyDict "(string \<times> 'a pyval) list"
  | PyArr 'a

text \<open>
  A Python \<open>dict\<close> with string keys is an association list in insertion order; \<open>d[k]\<close> raises
  \<open>KeyError\<close> on a missing key, \<open>k in d\<close> tests the keys, \<open>del d[k]\<close> raises \<open>KeyError\<close> on a
  missing key. \<open>xs[i]\<close> with a non-negative index raises \<open>IndexError\<close> out of range.
\<close>

type_synonym 'v pydict = "(string \<times> 'v) list"

definition py_in :: "string \<Rightarrow> 'v pydict \<Rightarrow> bool" where
  "py_in k d = (k \<in> set (map fst d))"

definition py_getitem :: "'v pydict \<Rightarrow> string \<Rightarrow> error + 'v" where
  "py_getitem d k = (case map_of d k of None \<Rightarrow> Inl (KeyError k) | Some v \<Rightarrow> Inr v)"

definition py_delitem :: "'v pydict \<Rightarrow> string \<Rightarrow> error + 'v pydict" where
  "py_delitem d k =
     (if py_in k d then Inr (filter (\<lambda>kv. fst kv \<noteq> k) d) else Inl (KeyError k))"

definition py_index :: "'v list \<Rightarrow> nat \<Rightarrow> error + 'v" where
  "py_index xs i = (if i < length xs then Inr (xs ! i) else Inl IndexError)"

text \<open>\<open>batch[c][i]\<close>: the column lookup first, the row lookup second.\<close>

definition cell :: "'v list pydict \<Rightarrow> string \<Rightarrow> nat \<Rightarrow> error + 'v" where
  "cell batch c i = sbind (py_getitem batch c) (\<lambda>col. py_index col i)"

subsection \<open>The column names and the schema\<close>

text \<open>
  The class \<open>Columns\<close> (\<^verbatim>\<open>ray.rllib.core.columns\<close>) is not part of the file; its
  string constants are a parameter of the model. The three legacy names and the observation
  column read by the loop of \<open>_map_to_episodes\<close> are literals of the source.
\<close>

record Columns =
  EPS_ID :: string
  AGENT_ID :: string
  MODULE_ID :: string
  OBS :: string
  ACTIONS :: string
  REWARDS :: string
  INFOS :: string
  NEXT_OBS :: string
  TERMINATEDS :: string
  TRUNCATEDS :: string
  T :: string

definition SCHEMA :: "Columns \<Rightarrow> string list" where
  "SCHEMA C =
     [EPS_ID C, AGENT_ID C, MODULE_ID C, OBS C, ACTIONS C, REWARDS C, INFOS C, NEXT_OBS C,
      TERMINATEDS C, TRUNCATEDS C, T C, ''agent_index'', ''dones'', ''unroll_id'']"

text \<open>The names under which RLlib ships these constants, used for the concrete examples.\<close>

definition rllib_columns :: Columns where
  "rllib_columns =
     \<lparr>EPS_ID = ''eps_id'', AGENT_ID = ''agent_id'', MODULE_ID = ''module_id'', OBS = ''obs'',
      ACTIONS = ''actions'', REWARDS = ''rewards'', INFOS = ''infos'', NEXT_OBS = ''new_obs'',
      TERMINATEDS = ''terminateds'', TRUNCATEDS = ''truncateds'', T = ''t''\<rparr>"

subsection \<open>Episodes\<close>

text \<open>
  \<open>SingleAgentEpisode\<close> is an external class; an episode is the record of the arguments that
  \<open>_map_to_episodes\<close> passes to its constructor (\<open>episode_id\<close> is the argument \<open>id_\<close>).
\<close>

record 'a SingleAgentEpisode =
  episode_id :: "'a pyval"
  agent_id :: "'a pyval"
  observations :: "'a pyval list"
  infos :: "'a pyval list"
  actions :: "'a pyval list"
  rewards :: "'a pyval list"
  terminated :: "'a pyval"
  truncated :: "'a pyval"
  extra_model_outputs :: "'a pyval list pydict"
  len_lookback_buffer :: int

type_synonym 'a raw_batch = "'a pyval list pydict"

subsection \<open>\<open>OfflinePreLearner._map_to_episodes\<close>\<close>

text \<open>
  \<^verbatim>\<open>{k: [v[i]] for k, v in batch.items() if k not in SCHEMA}\<close>
\<close>

fun extra_outputs :: "string list \<Rightarrow> 'a raw_batch \<Rightarrow> nat \<Rightarrow> error + 'a pyval list pydict" where
  "extra_outputs S [] i = Inr []"
| "extra_outputs S ((k, v) # kvs) i =
     (if k \<in> set S then extra_outputs S kvs i
      else (case py_index v i of
              Inl e \<Rightarrow> Inl e
            | Inr x \<Rightarrow> (case extra_outputs S kvs i of
                         Inl e \<Rightarrow> Inl e
                       | Inr rest \<Rightarrow> Inr ((k, [x]) # rest))))"

text \<open>
  The agent id of row \<open>i\<close>: looked up only in multi-agent mode, from the agent-id column, else
  from the legacy \<open>agent_index\<close> column, else \<open>None\<close>.
\<close>

definition row_agent_id :: "Columns \<Rightarrow> bool \<Rightarrow> 'a raw_batch \<Rightarrow> nat \<Rightarrow> error + 'a pyval" where
  "row_agent_id C is_multi_agent batch i =
     (if is_multi_agent then
        (if py_in (AGENT_ID C) batch then cell batch (AGENT_ID C) i
         else if py_in ''agent_index'' batch then cell batch ''agent_index'' i
         else Inr PyNone)
      else Inr PyNone)"

text \<open>
  The constructor call of the single-agent branch; its keyword arguments are evaluated in
  the order in which they are written. \<open>unpack_if_needed\<close> is an external helper and a
  parameter of the model.
\<close>

definition single_agent_episode ::
  "Columns \<Rightarrow> ('a pyval \<Rightarrow> 'a pyval) \<Rightarrow> 'a raw_batch \<Rightarrow> nat \<Rightarrow> 'a pyval \<Rightarrow> 'a pyval
     \<Rightarrow> error + 'a SingleAgentEpisode" where
  "single_agent_episode C unpack_if_needed batch i obs agent =
     sbind (cell batch (EPS_ID C) i) (\<lambda>eid.
     sbind (cell batch (NEXT_OBS C) i) (\<lambda>next_obs.
     sbind (if py_in (INFOS C) batch then cell batch (INFOS C) i else Inr (PyDict [])) (\<lambda>info.
     sbind (cell batch (ACTIONS C) i) (\<lambda>action.
     sbind (cell batch (REWARDS C) i) (\<lambda>reward.
     sbind (cell batch (if py_in (TERMINATEDS C) batch then TERMINATEDS C else ''dones'') i)
       (\<lambda>term.
     sbind (if py_in (TRUNCATEDS C) batch then cell batch (TRUNCATEDS C) i
            else Inr (PyBool False)) (\<lambda>trunc.
     sbind (extra_outputs (SCHEMA C) batch i) (\<lambda>extra.
     Inr \<lparr>episode_id = eid, agent_id = agent,
          observations = [unpack_if_needed obs, unpack_if_needed next_obs],
          infos = [PyDict [], info],
          actions = [action], rewards = [reward],
          terminated = term, truncated = trunc,
          extra_model_outputs = extra, len_lookback_buffer = 0\<rparr>))))))))"

text \<open>
  The loop \<^verbatim>\<open>for i, obs in enumerate(batch["obs"])\<close>. The state of the loop is the list
  \<open>episodes\<close> and the local variable \<open>episode\<close>, which is unbound until the single-agent
  branch assigns it; the multi-agent branch is \<open>pass\<close>, so that the \<open>append\<close> after it reads a
  variable that was never assigned.
\<close>

fun map_rows ::
  "Columns \<Rightarrow> ('a pyval \<Rightarrow> 'a pyval) \<Rightarrow> bool \<Rightarrow> 'a raw_batch \<Rightarrow> nat \<Rightarrow> 'a pyval list
     \<Rightarrow> 'a SingleAgentEpisode option \<Rightarrow> 'a SingleAgentEpisode list
     \<Rightarrow> error + 'a SingleAgentEpisode list" where
  "map_rows C unpack_if_needed is_multi_agent batch i [] episode episodes = Inr episodes"
| "map_rows C unpack_if_needed is_multi_agent batch i (obs # rest) episode episodes =
     (case row_agent_id C is_multi_agent batch i of
        Inl e \<Rightarrow> Inl e
      | Inr agent \<Rightarrow>
          (case (if is_multi_agent then Inr episode
                 else (case single_agent_episode C unpack_if_needed batch i obs agent of
                         Inl e \<Rightarrow> Inl e
                       | Inr ep \<Rightarrow> Inr (Some ep))) of
             Inl e \<Rightarrow> Inl e
           | Inr None \<Rightarrow> Inl (UnboundLocalError ''episode'')
           | Inr (Some ep) \<Rightarrow>
               map_rows C unpack_if_needed is_multi_agent batch (Suc i) rest (Some ep)
                 (episodes @ [ep])))"

definition map_to_episodes ::
  "Columns \<Rightarrow> ('a pyval \<Rightarrow> 'a pyval) \<Rightarrow> bool \<Rightarrow> 'a raw_batch
     \<Rightarrow> error + 'a SingleAgentEpisode list pydict" where
  "map_to_episodes C unpack_if_needed is_multi_agent batch =
     sbind (py_getitem batch ''obs'') (\<lambda>col.
     sbind (map_rows C unpack_if_needed is_multi_agent batch 0 col None []) (\<lambda>episodes.
     Inr [(''episodes'', episodes)]))"

text \<open>
  The columns that the spec calls required; the observation column is the literal \<open>"obs"\<close>
  that the loop iterates over.
\<close>

definition required_columns :: "Columns \<Rightarrow> string list" where
  "required_columns C = [EPS_ID C, ''obs'', NEXT_OBS C, ACTIONS C, REWARDS C]"

subsection \<open>The episodes as constructed\<close>

text \<open>
  What the constructor of \<open>SingleAgentEpisode\<close> makes of the argument \<open>id_\<close> is a parameter:
  \<open>assign_id\<close> takes the state of the runtime and the argument, and returns the id of the new
  object and the state after the call. The loop below is the loop of \<open>_map_to_episodes\<close>
  with this call carried out, row after row; an episode in its result holds the id of the
  object in \<open>episode_id\<close> and the other arguments as they were passed.
\<close>

fun construct_rows ::
  "('w \<Rightarrow> 'a pyval \<Rightarrow> 'a pyval \<times> 'w) \<Rightarrow> Columns \<Rightarrow> ('a pyval \<Rightarrow> 'a pyval) \<Rightarrow> bool
     \<Rightarrow> 'a raw_batch \<Rightarrow> nat \<Rightarrow> 'a pyval list
     \<Rightarrow> 'a SingleAgentEpisode option \<Rightarrow> 'a SingleAgentEpisode list \<Rightarrow> 'w
     \<Rightarrow> (error + 'a SingleAgentEpisode list) \<times> 'w" where
  "construct_rows assign_id C unpack_if_needed is_multi_agent batch i [] episode episodes w =
     (Inr episodes, w)"
| "construct_rows assign_id C unpack_if_needed is_multi_agent batch i (obs # rest) episode
       episodes w =
     (case row_agent_id C is_multi_agent batch i of
        Inl e \<Rightarrow> (Inl e, w)
      | Inr agent \<Rightarrow>
          if is_multi_agent then
            (case episode of
               None \<Rightarrow> (Inl (UnboundLocalError ''episode''), w)
             | Some ep \<Rightarrow>
                 construct_rows assign_id C unpack_if_needed is_multi_agent batch (Suc i) rest
                   (Some ep) (episodes @ [ep]) w)
          else
            (case single_agent_episode C unpack_if_needed batch i obs agent of
               Inl e \<Rightarrow> (Inl e, w)
             | Inr args \<Rightarrow>
                 (case assign_id w (episode_id args) of
                    (ident, w') \<Rightarrow>
                      construct_rows assign_id C unpack_if_needed is_multi_agent batch (Suc i)
                        rest (Some (args\<lparr>episode_id := ident\<rparr>))
                        (episodes @ [args\<lparr>episode_id := ident\<rparr>]) w')))"

definition map_to_episodes_constructed ::
  "('w \<Rightarrow> 'a pyval \<Rightarrow> 'a pyval \<times> 'w) \<Rightarrow> Columns \<Rightarrow> ('a pyval \<Rightarrow> 'a pyval) \<Rightarrow> bool
     \<Rightarrow> 'a raw_batch \<Rightarrow> 'w \<Rightarrow> (error + 'a SingleAgentEpisode list pydict) \<times> 'w" where
  "map_to_episodes_constructed assign_id C unpack_if_needed is_multi_agent batch w =
     (case py_getitem batch ''obs'' of
        Inl e \<Rightarrow> (Inl e, w)
      | Inr col \<Rightarrow>
          (case construct_rows assign_id C unpack_if_needed is_multi_agent batch 0 col None [] w of
             (Inl e, w') \<Rightarrow> (Inl e, w')
           | (Inr episodes, w') \<Rightarrow> (Inr [(''episodes'', episodes)], w')))"

text \<open>
  The constructor that RLlib ships, used for the concrete examples: it has
  \<^verbatim>\<open>self.id_ = id_ or uuid.uuid4().hex\<close>, so that an argument that counts as false (\<open>None\<close>,
  \<open>0\<close>, the empty string) is replaced by a fresh identifier. The state of the runtime is the
  number of identifiers drawn so far, and \<open>uuid4 k\<close> is the identifier of draw \<open>k\<close>. An opaque
  payload counts as true.
\<close>

fun py_truthy :: "'a pyval \<Rightarrow> bool" where
  "py_truthy PyNone = False"
| "py_truthy (PyBool b) = b"
| "py_truthy (PyInt i) = (i \<noteq> 0)"
| "py_truthy (PyStr s) = (s \<noteq> [])"
| "py_truthy (PyDict d) = (d \<noteq> [])"
| "py_truthy (PyArr a) = True"

definition rllib_assign_id :: "(nat \<Rightarrow> string) \<Rightarrow> nat \<Rightarrow> 'a pyval \<Rightarrow> 'a pyval \<times> nat" where
  "rllib_assign_id uuid4 k id_arg =
     (if py_truthy id_arg then (id_arg, k) else (PyStr (uuid4 k), Suc k))"

subsection \<open>Module-keyed batches and the inclusion policy\<close>

text \<open>
  \<open>SampleBatch\<close> and \<open>MultiAgentBatch\<close> are external classes: a wrapper around the column data
  of one module, and the dict \<open>policy_batches\<close> together with the count \<open>env_steps\<close>.
\<close>

datatype 'd SampleBatch = SampleBatch 'd

record 'd MultiAgentBatch =
  policy_batches :: "'d SampleBatch pydict"
  env_steps :: int

text \<open>
  \<open>config.policies_to_train\<close> is \<open>None\<close>, a collection of module ids, or a callable taking
  the module id and the multi-agent batch.
\<close>

datatype 'd policies_to_train =
    PoliciesNone
  | PoliciesCollection "string list"
  | PoliciesCallable "string \<Rightarrow> 'd MultiAgentBatch \<Rightarrow> bool"

text \<open>Python truthiness of the policy: \<open>None\<close> and an empty collection are falsy.\<close>

fun policies_truthy :: "'d policies_to_train \<Rightarrow> bool" where
  "policies_truthy PoliciesNone = False"
| "policies_truthy (PoliciesCollection ids) = (ids \<noteq> [])"
| "policies_truthy (PoliciesCallable f) = True"

fun callable :: "'d policies_to_train \<Rightarrow> bool" where
  "callable (PoliciesCallable f) = True"
| "callable _ = False"

fun should_module_be_updated ::
  "'d policies_to_train \<Rightarrow> string \<Rightarrow> 'd MultiAgentBatch \<Rightarrow> bool" where
  "should_module_be_updated policies module_id multi_agent_batch =
     (if \<not> policies_truthy policies then True
      else if \<not> callable policies then
        (case policies of PoliciesCollection ids \<Rightarrow> module_id \<in> set ids | _ \<Rightarrow> False)
      else
        (case policies of PoliciesCallable f \<Rightarrow> f module_id multi_agent_batch | _ \<Rightarrow> False))"

text \<open>
  The loop over \<^verbatim>\<open>list(batch.policy_batches.keys())\<close>: the keys are listed once, before the
  loop; the batch handed to \<open>_should_module_be_updated\<close> is the object that the loop
  deletes from.
\<close>

fun remove_untrained ::
  "'d policies_to_train \<Rightarrow> string list \<Rightarrow> 'd MultiAgentBatch \<Rightarrow> error + 'd MultiAgentBatch" where
  "remove_untrained policies [] batch = Inr batch"
| "remove_untrained policies (module_id # rest) batch =
     (if \<not> should_module_be_updated policies module_id batch then
        (case py_delitem (policy_batches batch) module_id of
           Inl e \<Rightarrow> Inl e
         | Inr pb \<Rightarrow> remove_untrained policies rest (batch\<lparr>policy_batches := pb\<rparr>))
      else remove_untrained policies rest batch)"

subsection \<open>The configuration\<close>

text \<open>
  \<open>AlgorithmConfig\<close> is external; the record holds what this file reads from it. The
  connector pipeline that \<open>build_learner_connector\<close> returns is a fallible function from the
  module and the episodes to the column data of each module.
\<close>

datatype input_path = PathList "string list" | Path string

record ('m, 'a, 'd) AlgorithmConfig =
  cfg_is_multi_agent :: bool
  cfg_input :: input_path
  input_read_method :: string
  input_read_method_kwargs :: "'a pyval pydict"
  num_learners :: int
  policies_to_train :: "'d policies_to_train"
  build_learner_connector :: "'m \<Rightarrow> 'a SingleAgentEpisode list \<Rightarrow> error + 'd pydict"

subsection \<open>\<open>OfflinePreLearner\<close>\<close>

type_synonym node_id = string

datatype ('l, 'h) learner_arg = Learner 'l | ActorHandles "'h list"

datatype ('l, 'h) bound_learner = LocalLearner 'l | RemoteLearner 'h

record ('l, 'h, 'm, 'a, 'd) OfflinePreLearner =
  self_config :: "('m, 'a, 'd) AlgorithmConfig"
  self_learner :: "('l, 'h) bound_learner"
  learner_is_remote :: bool
  self_module :: 'm
  self_learner_connector :: "'m \<Rightarrow> 'a SingleAgentEpisode list \<Rightarrow> error + 'd pydict"
  self_policies_to_train :: "'d policies_to_train"
  self_is_multi_agent :: bool
  iter_since_last_module_update :: int

text \<open>\<^verbatim>\<open>[xs[i] for i in indices]\<close>\<close>

fun gather :: "'v list \<Rightarrow> nat list \<Rightarrow> error + 'v list" where
  "gather xs [] = Inr []"
| "gather xs (i # indices) =
     (case py_index xs i of
        Inl e \<Rightarrow> Inl e
      | Inr v \<Rightarrow> (case gather xs indices of Inl e \<Rightarrow> Inl e | Inr vs \<Rightarrow> Inr (v # vs)))"

text \<open>
  \<^verbatim>\<open>for i, hint in enumerate(locality_hints): if hint == node_id: self._learner = learner[i]\<close>
  The attribute \<open>_learner\<close> does not exist before the first assignment (\<open>None\<close> below); the
  loop has no \<open>break\<close>, so a later match overwrites an earlier one.
\<close>

fun same_node_scan ::
  "node_id \<Rightarrow> nat \<Rightarrow> node_id list \<Rightarrow> 'h list \<Rightarrow> 'h option \<Rightarrow> error + 'h option" where
  "same_node_scan node i [] learner chosen = Inr chosen"
| "same_node_scan node i (hint # rest) learner chosen =
     (if hint = node then
        (case py_index learner i of
           Inl e \<Rightarrow> Inl e
         | Inr h \<Rightarrow> same_node_scan node (Suc i) rest learner (Some h))
      else same_node_scan node (Suc i) rest learner chosen)"

text \<open>
  The remote branch of \<open>__init__\<close> up to the binding of \<open>self._learner\<close>. The runtime supplies
  the node id of this worker, the order \<open>shuffled\<close> in which \<open>random.shuffle\<close> leaves the
  indices, the number \<open>drawn\<close> that \<open>random.randint\<close> returns and the truth value of a handle.
  \<open>len(None)\<close> is a \<open>TypeError\<close>; reading \<open>self._learner\<close> before any assignment is an
  \<open>AttributeError\<close>; \<open>random.randint(0, -1)\<close> is a \<open>ValueError\<close>. Whenever \<open>randint\<close> returns,
  \<open>drawn\<close> lies between \<open>0\<close> and \<open>len(learner) - 1\<close>; the model fails on any other number.
\<close>

definition select_remote_learner ::
  "node_id \<Rightarrow> nat list \<Rightarrow> int \<Rightarrow> ('h \<Rightarrow> bool) \<Rightarrow> 'h list \<Rightarrow> node_id list option \<Rightarrow> error + 'h" where
  "select_remote_learner node shuffled drawn truthy learner locality_hints =
     (case locality_hints of
        None \<Rightarrow> Inl (TypeError ''object of type NoneType has no len()'')
      | Some hints \<Rightarrow>
          sbind (gather hints shuffled) (\<lambda>hints'.
          sbind (gather learner shuffled) (\<lambda>learner'.
          sbind (same_node_scan node 0 hints' learner' None) (\<lambda>chosen.
          (case chosen of
             None \<Rightarrow> Inl (AttributeError ''_learner'')
           | Some h \<Rightarrow>
               if \<not> truthy h then
                 (if length learner' = 0 then Inl (ValueError ''empty range for randrange()'')
                  else if drawn < 0 then Inl IndexError
                  else py_index learner' (nat drawn))
               else Inr h)))))"

text \<open>
  \<open>__init__\<close>. The runtime further supplies the module of a local learner
  (\<open>learner._module\<close>), \<open>module_spec.build()\<close> and \<open>set_state\<close>; \<open>None.build()\<close> is an
  \<open>AttributeError\<close>.
\<close>

definition OfflinePreLearner_init ::
  "node_id \<Rightarrow> nat list \<Rightarrow> int \<Rightarrow> ('h \<Rightarrow> bool) \<Rightarrow> ('l \<Rightarrow> 'm) \<Rightarrow> ('spec \<Rightarrow> 'm)
     \<Rightarrow> ('m \<Rightarrow> 'st option \<Rightarrow> 'm)
     \<Rightarrow> ('m, 'a, 'd) AlgorithmConfig \<Rightarrow> ('l, 'h) learner_arg \<Rightarrow> node_id list option
     \<Rightarrow> 'spec option \<Rightarrow> 'st option \<Rightarrow> error + ('l, 'h, 'm, 'a, 'd) OfflinePreLearner" where
  "OfflinePreLearner_init node shuffled drawn truthy learner_module build set_state
       config learner locality_hints module_spec module_state =
     sbind
       (case learner of
          Learner l \<Rightarrow> Inr (LocalLearner l, False, learner_module l)
        | ActorHandles handles \<Rightarrow>
            sbind (select_remote_learner node shuffled drawn truthy handles locality_hints)
              (\<lambda>h.
            (case module_spec of
               None \<Rightarrow> Inl (AttributeError ''build'')
             | Some spec \<Rightarrow> Inr (RemoteLearner h, True, set_state (build spec) module_state))))
       (\<lambda>(bound, remote, module).
          Inr \<lparr>self_config = config, self_learner = bound, learner_is_remote = remote,
               self_module = module,
               self_learner_connector = build_learner_connector config,
               self_policies_to_train = policies_to_train config,
               self_is_multi_agent = cfg_is_multi_agent config,
               iter_since_last_module_update = 0\<rparr>)"

text \<open>
  \<open>__call__\<close>. \<open>env_steps_of\<close> stands for the external method \<open>SingleAgentEpisode.env_steps\<close>.
\<close>

definition OfflinePreLearner_call ::
  "Columns \<Rightarrow> ('a pyval \<Rightarrow> 'a pyval) \<Rightarrow> ('a SingleAgentEpisode \<Rightarrow> int)
     \<Rightarrow> ('l, 'h, 'm, 'a, 'd) OfflinePreLearner \<Rightarrow> 'a raw_batch
     \<Rightarrow> error + 'd MultiAgentBatch list pydict" where
  "OfflinePreLearner_call C unpack_if_needed env_steps_of self batch =
     sbind (map_to_episodes C unpack_if_needed (self_is_multi_agent self) batch) (\<lambda>episodes.
     sbind (py_getitem episodes ''episodes'') (\<lambda>eps.
     sbind (self_learner_connector self (self_module self) eps) (\<lambda>data.
     sbind (py_getitem episodes ''episodes'') (\<lambda>eps'.
     (let batch' = \<lparr>policy_batches = map (\<lambda>(module_id, module_data).
                                           (module_id, SampleBatch module_data)) data,
                    env_steps = sum_list (map env_steps_of eps')\<rparr>
      in sbind (remove_untrained (self_policies_to_train self)
                  (map fst (policy_batches batch')) batch') (\<lambda>batch''.
         Inr [(''batch'', [batch''])]))))))"

subsection \<open>\<open>OfflineData\<close>\<close>

text \<open>
  The lazy dataset operations of Ray Data are external; each is recorded with the arguments
  it is called with.
\<close>

datatype 'h learner_kwarg = OneLearner 'h | AllLearners "'h list option"

record ('m, 'a, 'd, 'h, 'spec, 'st) constructor_kwargs =
  kw_config :: "('m, 'a, 'd) AlgorithmConfig"
  kw_learner :: "'h learner_kwarg"
  kw_locality_hints :: "node_id list option"
  kw_module_spec :: "'spec option"
  kw_module_state :: "'st option"

record ('ds, 'm, 'a, 'd, 'h, 'spec, 'st) map_batches =
  source :: 'ds
  fn_constructor_kwargs :: "('m, 'a, 'd, 'h, 'spec, 'st) constructor_kwargs"
  concurrency :: int
  batch_size :: int
  zero_copy_batch :: bool

record ('ds, 'm, 'a, 'd, 'h, 'spec, 'st) iter_batches =
  iterated :: "('ds, 'm, 'a, 'd, 'h, 'spec, 'st) map_batches"
  iter_batch_size :: int
  prefetch_batches :: int
  local_shuffle_buffer_size :: int

record ('ds, 'm, 'a, 'd, 'h, 'spec, 'st) streaming_split =
  split_dataset :: "('ds, 'm, 'a, 'd, 'h, 'spec, 'st) map_batches"
  split_n :: int
  split_equal :: bool
  split_locality_hints :: "node_id list option"

record ('ds, 'm, 'a, 'd, 'h, 'spec, 'st) OfflineData =
  config :: "('m, 'a, 'd) AlgorithmConfig"
  is_multi_agent :: bool
  path :: input_path
  data_read_method :: string
  data_read_method_kwargs :: "'a pyval pydict"
  data :: "'ds option"
  batch_iterator :: "('ds, 'm, 'a, 'd, 'h, 'spec, 'st) iter_batches option"
  locality_hints :: "node_id list option"
  learner_handles :: "'h list option"
  module_spec :: "'spec option"

text \<open>\<open>a | b\<close> on dicts: the keys of \<open>a\<close> in their order, with the values of \<open>b\<close> where it has
  the key, then the other keys of \<open>b\<close>.\<close>

definition py_dict_or :: "'v pydict \<Rightarrow> 'v pydict \<Rightarrow> 'v pydict" where
  "py_dict_or a b =
     map (\<lambda>(k, v). (k, case map_of b k of None \<Rightarrow> v | Some v' \<Rightarrow> v')) a @
     filter (\<lambda>(k, v). \<not> py_in k a) b"

definition default_read_method_kwargs :: "('m, 'a, 'd) AlgorithmConfig \<Rightarrow> 'a pyval pydict" where
  "default_read_method_kwargs cfg = [(''override_num_blocks'', PyInt (max (num_learners cfg * 2) 2))]"

text \<open>
  \<open>__init__\<close>. \<open>read\<close> stands for \<^verbatim>\<open>getattr(ray.data, method)(path, **kwargs)\<close>. When it
  raises, the exception is logged and the attribute \<open>data\<close> is never assigned (\<open>None\<close> below).
  The calls of the logger, and of \<open>schema()\<close> for the log, are left out.
\<close>

definition OfflineData_init ::
  "(string \<Rightarrow> input_path \<Rightarrow> 'a pyval pydict \<Rightarrow> error + 'ds) \<Rightarrow> ('m, 'a, 'd) AlgorithmConfig
     \<Rightarrow> ('ds, 'm, 'a, 'd, 'h, 'spec, 'st) OfflineData" where
  "OfflineData_init read cfg =
     (let kwargs = py_dict_or (default_read_method_kwargs cfg) (input_read_method_kwargs cfg)
      in \<lparr>config = cfg, is_multi_agent = cfg_is_multi_agent cfg, path = cfg_input cfg,
          data_read_method = input_read_method cfg, data_read_method_kwargs = kwargs,
          data = (case read (input_read_method cfg) (cfg_input cfg) kwargs of
                    Inl e \<Rightarrow> None
                  | Inr ds \<Rightarrow> Some ds),
          batch_iterator = None, locality_hints = None, learner_handles = None,
          module_spec = None\<rparr>)"

text \<open>\<open>self.learner_handles[0]\<close>\<close>

definition first_learner :: "('ds, 'm, 'a, 'd, 'h, 'spec, 'st) OfflineData \<Rightarrow> error + 'h" where
  "first_learner self =
     (case learner_handles self of
        None \<Rightarrow> Inl (TypeError ''NoneType object is not subscriptable'')
      | Some handles \<Rightarrow> py_index handles 0)"

text \<open>
  The assignment to \<open>self.batch_iterator\<close> in \<open>sample\<close>: \<open>self.data\<close> is read first, the
  keyword arguments are built after it.
\<close>

definition build_batch_iterator ::
  "('ds, 'm, 'a, 'd, 'h, 'spec, 'st) OfflineData \<Rightarrow> int
     \<Rightarrow> error + ('ds, 'm, 'a, 'd, 'h, 'spec, 'st) OfflineData" where
  "build_batch_iterator self num_samples =
     (case data self of
        None \<Rightarrow> Inl (AttributeError ''data'')
      | Some ds \<Rightarrow>
          sbind (first_learner self) (\<lambda>h.
          Inr (self\<lparr>batch_iterator := Some
                 \<lparr>iterated =
                    \<lparr>source = ds,
                     fn_constructor_kwargs =
                       \<lparr>kw_config = config self, kw_learner = OneLearner h,
                        kw_locality_hints = None, kw_module_spec = None,
                        kw_module_state = None\<rparr>,
                     concurrency = 2, batch_size = num_samples, zero_copy_batch = False\<rparr>,
                  iter_batch_size = num_samples, prefetch_batches = 2,
                  local_shuffle_buffer_size = num_samples * 10\<rparr>\<rparr>)))"

datatype component = COMPONENT_RL_MODULE

datatype 'h remote_call = GetState 'h component

datatype ('ds, 'm, 'a, 'd, 'h, 'spec, 'st) sampled =
    Batch "'d MultiAgentBatch"
  | BatchIterator "('ds, 'm, 'a, 'd, 'h, 'spec, 'st) iter_batches option"
  | StreamingSplit "('ds, 'm, 'a, 'd, 'h, 'spec, 'st) streaming_split"

text \<open>
  \<open>sample\<close> returns its result or the exception, the object after the call, and the remote
  calls it made, in order. \<open>get_state\<close> stands for
  \<^verbatim>\<open>ray.get(handle.get_state.remote(component=...))\<close> and \<open>next_batch\<close> for
  \<^verbatim>\<open>next(iter(iterator))\<close>; \<open>StreamingSplit\<close> stands for the list of \<open>n\<close> iterators that
  \<open>streaming_split\<close> returns.
\<close>

definition sample ::
  "('h \<Rightarrow> component \<Rightarrow> error + 'st)
     \<Rightarrow> (('ds, 'm, 'a, 'd, 'h, 'spec, 'st) iter_batches \<Rightarrow> error + 'd MultiAgentBatch list pydict)
     \<Rightarrow> ('ds, 'm, 'a, 'd, 'h, 'spec, 'st) OfflineData \<Rightarrow> int \<Rightarrow> bool \<Rightarrow> int
     \<Rightarrow> (error + ('ds, 'm, 'a, 'd, 'h, 'spec, 'st) sampled)
         \<times> ('ds, 'm, 'a, 'd, 'h, 'spec, 'st) OfflineData \<times> 'h remote_call list" where
  "sample get_state next_batch self num_samples return_iterator num_shards =
     (case (if \<not> return_iterator \<or>
               return_iterator \<and> num_shards \<le> 1 \<and> batch_iterator self = None
            then build_batch_iterator self num_samples else Inr self) of
        Inl e \<Rightarrow> (Inl e, self, [])
      | Inr self' \<Rightarrow>
          if return_iterator then
            if num_shards > 1 then
              (case first_learner self' of
                 Inl e \<Rightarrow> (Inl e, self', [])
               | Inr h \<Rightarrow>
                   (case get_state h COMPONENT_RL_MODULE of
                      Inl e \<Rightarrow> (Inl e, self', [GetState h COMPONENT_RL_MODULE])
                    | Inr module_state \<Rightarrow>
                        (case data self' of
                           None \<Rightarrow>
                             (Inl (AttributeError ''data''), self',
                              [GetState h COMPONENT_RL_MODULE])
                         | Some ds \<Rightarrow>
                             (Inr (StreamingSplit
                                \<lparr>split_dataset =
                                   \<lparr>source = ds,
                                    fn_constructor_kwargs =
                                      \<lparr>kw_config = config self',
                                       kw_learner = AllLearners (learner_handles self'),
                                       kw_locality_hints = locality_hints self',
                                       kw_module_spec = module_spec self',
                                       kw_module_state = Some module_state\<rparr>,
                                    concurrency = num_shards, batch_size = num_samples,
                                    zero_copy_batch = True\<rparr>,
                                 split_n = num_shards, split_equal = False,
                                 split_locality_hints = locality_hints self'\<rparr>),
                              self', [GetState h COMPONENT_RL_MODULE]))))
            else (Inr (BatchIterator (batch_iterator self')), self', [])
          else
            (case batch_iterator self' of
               None \<Rightarrow> (Inl (TypeError ''NoneType object is not iterable''), self', [])
             | Some it \<Rightarrow>
                 (sbind (next_batch it) (\<lambda>out.
                  sbind (py_getitem out ''batch'') (\<lambda>batches.
                  sbind (py_index batches 0) (\<lambda>b. Inr (Batch b)))),
                  self', [])))"

text \<open>
  Modelled from the spec: the worker pool of Ray Data behind \<open>map_batches\<close> is not part of the
  file. The spec (4.5) has it construct as many transform units as the \<open>concurrency\<close> of the
  stage, each from the one set of constructor arguments handed to \<open>map_batches\<close>; the list
  below holds the arguments of these constructor calls.
\<close>

definition transform_unit_constructions ::
  "('ds, 'm, 'a, 'd, 'h, 'spec, 'st) map_batches
     \<Rightarrow> ('m, 'a, 'd, 'h, 'spec, 'st) constructor_kwargs list" where
  "transform_unit_constructions stage =
     replicate (nat (concurrency stage)) (fn_constructor_kwargs stage)"

subsection \<open>Concrete inputs\<close>

definition example_batch :: "nat raw_batch" where
  "example_batch =
     [(''eps_id'', [PyStr ''e0'', PyStr ''e1'']),
      (''agent_id'', [PyNone, PyNone]),
      (''module_id'', [PyNone, PyNone]),
      (''obs'', [PyArr 10, PyArr 11]),
      (''actions'', [PyInt 0, PyInt 1]),
      (''rewards'', [PyInt 1, PyInt 0]),
      (''infos'', [PyDict [], PyDict []]),
      (''new_obs'', [PyArr 11, PyArr 12]),
      (''terminateds'', [PyBool False, PyBool True]),
      (''truncateds'', [PyBool False, PyBool False]),
      (''t'', [PyInt 0, PyInt 1]),
      (''agent_index'', [PyInt 0, PyInt 0]),
      (''dones'', [PyBool False, PyBool True]),
      (''unroll_id'', [PyInt 7, PyInt 7]),
      (''action_logp'', [PyArr 5, PyArr 6])]"

definition batch_without_flags :: "nat raw_batch" where
  "batch_without_flags =
     [(''obs'', [PyArr 10]), (''eps_id'', [PyStr ''e0'']), (''new_obs'', [PyArr 11]),
      (''actions'', [PyInt 0]), (''rewards'', [PyInt 1])]"

definition legacy_batch :: "nat raw_batch" where
  "legacy_batch =
     [(''obs'', [PyArr 10]), (''eps_id'', [PyStr ''e0'']), (''new_obs'', [PyArr 11]),
      (''actions'', [PyInt 0]), (''rewards'', [PyInt 1]), (''dones'', [PyBool True])]"

definition batch_without_actions :: "nat raw_batch" where
  "batch_without_actions =
     [(''obs'', [PyArr 10]), (''eps_id'', [PyStr ''e0'']), (''new_obs'', [PyArr 11]),
      (''rewards'', [PyInt 1]), (''terminateds'', [PyBool True])]"

definition empty_batch :: "nat raw_batch" where
  "empty_batch = [(''obs'', [])]"

definition two_module_batch :: "nat MultiAgentBatch" where
  "two_module_batch = \<lparr>policy_batches = [(''A'', SampleBatch 1), (''B'', SampleBatch 2)],
                        env_steps = 3\<rparr>"

definition B_while_A_present :: "nat policies_to_train" where
  "B_while_A_present =
     PoliciesCallable (\<lambda>module_id batch. module_id = ''B'' \<and> py_in ''A'' (policy_batches batch))"

definition never_train :: "nat policies_to_train" where
  "never_train = PoliciesCallable (\<lambda>module_id batch. False)"

definition example_config :: "(nat, nat, nat) AlgorithmConfig" where
  "example_config =
     \<lparr>cfg_is_multi_agent = False, cfg_input = Path ''/data/cartpole'',
      input_read_method = ''read_json'', input_read_method_kwargs = [],
      num_learners = 4, policies_to_train = PoliciesNone,
      build_learner_connector = (\<lambda>module eps. Inr [(''default_policy'', length eps)])\<rparr>"

definition example_prelearner :: "(unit, nat, nat, nat, nat) OfflinePreLearner" where
  "example_prelearner =
     \<lparr>self_config = example_config, self_learner = RemoteLearner 0, learner_is_remote = True,
      self_module = 7, self_learner_connector = build_learner_connector example_config,
      self_policies_to_train = policies_to_train example_config,
      self_is_multi_agent = cfg_is_multi_agent example_config,
      iter_since_last_module_update = 0\<rparr>"

definition three_handles :: "nat list" where
  "three_handles = [100, 101, 102]"

definition three_hints :: "node_id list" where
  "three_hints = [''node-a'', ''node-b'', ''node-c'']"

definition failing_read :: "string \<Rightarrow> input_path \<Rightarrow> nat pyval pydict \<Rightarrow> error + nat" where
  "failing_read method p kwargs = Inl (External ''FileNotFoundError'')"

definition unloaded_data :: "(nat, nat, nat, nat, nat, nat, nat) OfflineData" where
  "unloaded_data = OfflineData_init failing_read example_config"

definition example_get_state :: "nat \<Rightarrow> component \<Rightarrow> error + nat" where
  "example_get_state handle c = Inr (handle + 1000)"

definition example_next_batch ::
  "(nat, nat, nat, nat, nat, nat, nat) iter_batches \<Rightarrow> error + nat MultiAgentBatch list pydict" where
  "example_next_batch it = Inr [(''batch'', [two_module_batch])]"

definition loaded_data :: "(nat, nat, nat, nat, nat, nat, nat) OfflineData" where
  "loaded_data =
     (OfflineData_init (\<lambda>method p kwargs. Inr 55) example_config)
       \<lparr>locality_hints := Some [''node-a'', ''node-b'', ''node-c'', ''node-d''],
        learner_handles := Some [100, 101, 102, 103],
        module_spec := Some 9\<rparr>"

definition example_uuid4 :: "nat \<Rightarrow> string" where
  "example_uuid4 k = ''uuid-'' @ replicate k (CHR ''x'')"

definition zero_id_batch :: "nat raw_batch" where
  "zero_id_batch =
     [(''obs'', [PyArr 10]), (''eps_id'', [PyInt 0]), (''new_obs'', [PyArr 11]),
      (''actions'', [PyInt 0]), (''rewards'', [PyInt 1]), (''dones'', [PyBool True])]"

section \<open>Properties of \<open>_map_to_episodes\<close>\<close>

lemma sbind_Inl: "sbind (Inl e) f = Inl e"
  by (simp add: sbind_def)

lemma sbind_Inr: "sbind (Inr v) f = f v"
  by (simp add: sbind_def)

lemma py_getitem_absent: "\<not> py_in k d \<Longrightarrow> py_getitem d k = Inl (KeyError k)"
proof -
  assume "\<not> py_in k d"
  then have "map_of d k = None"
    by (simp add: py_in_def map_of_eq_None_iff)
  then show ?thesis
    by (simp add: py_getitem_def)
qed

lemma py_getitem_present:
  assumes "py_in k d"
  shows "\<exists>v. py_getitem d k = Inr v \<and> (k, v) \<in> set d"
proof -
  from assms have "map_of d k \<noteq> None"
    by (simp add: py_in_def map_of_eq_None_iff)
  then obtain v where "map_of d k = Some v"
    by blast
  then show ?thesis
    by (auto simp: py_getitem_def dest: map_of_SomeD)
qed

lemma cell_absent: "\<not> py_in c batch \<Longrightarrow> cell batch c i = Inl (KeyError c)"
  by (simp add: cell_def py_getitem_absent sbind_Inl)

lemma cell_present:
  assumes "py_in c batch" and "\<forall>(k, col) \<in> set batch. i < length col"
  shows "\<exists>v. cell batch c i = Inr v"
proof -
  from py_getitem_present [OF assms(1)] obtain col
    where "py_getitem batch c = Inr col" and "(c, col) \<in> set batch" by blast
  with assms(2) show ?thesis
    by (auto simp: cell_def sbind_Inr py_index_def)
qed

lemma extra_outputs_ok:
  "\<forall>(k, col) \<in> set batch. i < length col \<Longrightarrow> \<exists>x. extra_outputs S batch i = Inr x"
  by (induction batch) (auto simp: py_index_def)

lemma single_agent_episode_ok:
  assumes eid: "py_in (EPS_ID C) batch" and nobs: "py_in (NEXT_OBS C) batch"
      and act: "py_in (ACTIONS C) batch" and rew: "py_in (REWARDS C) batch"
      and tmc: "py_in (TERMINATEDS C) batch \<or> py_in ''dones'' batch"
      and rows: "\<forall>(k, col) \<in> set batch. i < length col"
  shows "\<exists>ep e no inf a r tm tr ex.
           single_agent_episode C unpack batch i obs agent = Inr ep \<and>
           cell batch (EPS_ID C) i = Inr e \<and>
           cell batch (NEXT_OBS C) i = Inr no \<and>
           (if py_in (INFOS C) batch then cell batch (INFOS C) i else Inr (PyDict [])) = Inr inf \<and>
           cell batch (ACTIONS C) i = Inr a \<and>
           cell batch (REWARDS C) i = Inr r \<and>
           cell batch (if py_in (TERMINATEDS C) batch then TERMINATEDS C else ''dones'') i = Inr tm \<and>
           (if py_in (TRUNCATEDS C) batch then cell batch (TRUNCATEDS C) i else Inr (PyBool False))
              = Inr tr \<and>
           extra_outputs (SCHEMA C) batch i = Inr ex \<and>
           ep = \<lparr>episode_id = e, agent_id = agent, observations = [unpack obs, unpack no],
                 infos = [PyDict [], inf], actions = [a], rewards = [r], terminated = tm,
                 truncated = tr, extra_model_outputs = ex, len_lookback_buffer = 0\<rparr>"
proof -
  obtain e where e: "cell batch (EPS_ID C) i = Inr e"
    using cell_present [OF eid rows] by blast
  obtain no where no: "cell batch (NEXT_OBS C) i = Inr no"
    using cell_present [OF nobs rows] by blast
  obtain inf where inf:
    "(if py_in (INFOS C) batch then cell batch (INFOS C) i else Inr (PyDict [])) = Inr inf"
    using cell_present [OF _ rows, of "INFOS C"] by (cases "py_in (INFOS C) batch") auto
  obtain a where a: "cell batch (ACTIONS C) i = Inr a"
    using cell_present [OF act rows] by blast
  obtain r where r: "cell batch (REWARDS C) i = Inr r"
    using cell_present [OF rew rows] by blast
  have "py_in (if py_in (TERMINATEDS C) batch then TERMINATEDS C else ''dones'') batch"
    using tmc by auto
  then obtain tm where tm:
    "cell batch (if py_in (TERMINATEDS C) batch then TERMINATEDS C else ''dones'') i = Inr tm"
    using cell_present [OF _ rows] by blast
  obtain tr where tr:
    "(if py_in (TRUNCATEDS C) batch then cell batch (TRUNCATEDS C) i else Inr (PyBool False))
       = Inr tr"
    using cell_present [OF _ rows, of "TRUNCATEDS C"] by (cases "py_in (TRUNCATEDS C) batch") auto
  obtain ex where ex: "extra_outputs (SCHEMA C) batch i = Inr ex"
    using extra_outputs_ok [OF rows] by blast
  have "single_agent_episode C unpack batch i obs agent =
          Inr \<lparr>episode_id = e, agent_id = agent, observations = [unpack obs, unpack no],
                 infos = [PyDict [], inf], actions = [a], rewards = [r], terminated = tm,
                 truncated = tr, extra_model_outputs = ex, len_lookback_buffer = 0\<rparr>"
    unfolding single_agent_episode_def e no inf a r tm tr ex sbind_Inr ..
  with e no inf a r tm tr ex show ?thesis
    by blast
qed

lemma map_rows_single_ok:
  assumes "\<forall>j<length rest. \<exists>ep. single_agent_episode C unpack batch (i + j) (rest ! j) PyNone = Inr ep"
  shows "\<exists>eps. map_rows C unpack False batch i rest cur acc = Inr (acc @ eps) \<and>
           length eps = length rest \<and>
           (\<forall>j<length rest.
              single_agent_episode C unpack batch (i + j) (rest ! j) PyNone = Inr (eps ! j))"
  using assms
proof (induction rest arbitrary: i cur acc)
  case Nil
  then show ?case by simp
next
  case (Cons obs rest)
  from Cons.prems [rule_format, of 0] obtain ep
    where ep: "single_agent_episode C unpack batch i obs PyNone = Inr ep"
    by auto
  have "\<forall>j<length rest.
          \<exists>ep. single_agent_episode C unpack batch (Suc i + j) (rest ! j) PyNone = Inr ep"
    using Cons.prems by (metis add_Suc_shift length_Cons not_less_eq nth_Cons_Suc)
  from Cons.IH [OF this, of "Some ep" "acc @ [ep]"] obtain eps
    where run: "map_rows C unpack False batch (Suc i) rest (Some ep) (acc @ [ep])
                  = Inr ((acc @ [ep]) @ eps)"
      and len: "length eps = length rest"
      and each: "\<forall>j<length rest.
                   single_agent_episode C unpack batch (Suc i + j) (rest ! j) PyNone = Inr (eps ! j)"
    by blast
  have "map_rows C unpack False batch i (obs # rest) cur acc = Inr (acc @ (ep # eps))"
    using ep run by (simp add: row_agent_id_def)
  moreover have "length (ep # eps) = length (obs # rest)"
    using len by simp
  moreover have "\<forall>j<length (obs # rest).
       single_agent_episode C unpack batch (i + j) ((obs # rest) ! j) PyNone = Inr ((ep # eps) ! j)"
  proof (intro allI impI)
    fix j assume "j < length (obs # rest)"
    then show "single_agent_episode C unpack batch (i + j) ((obs # rest) ! j) PyNone
                 = Inr ((ep # eps) ! j)"
      using ep each by (cases j) auto
  qed
  ultimately show ?case by blast
qed

lemma single_agent_episode_InrD:
  assumes "single_agent_episode C unpack batch i obs agent = Inr ep"
  shows "\<exists>e no inf a r tm tr ex.
           cell batch (EPS_ID C) i = Inr e \<and>
           cell batch (NEXT_OBS C) i = Inr no \<and>
           (if py_in (INFOS C) batch then cell batch (INFOS C) i else Inr (PyDict [])) = Inr inf \<and>
           cell batch (ACTIONS C) i = Inr a \<and>
           cell batch (REWARDS C) i = Inr r \<and>
           cell batch (if py_in (TERMINATEDS C) batch then TERMINATEDS C else ''dones'') i = Inr tm \<and>
           (if py_in (TRUNCATEDS C) batch then cell batch (TRUNCATEDS C) i else Inr (PyBool False))
              = Inr tr \<and>
           extra_outputs (SCHEMA C) batch i = Inr ex \<and>
           ep = \<lparr>episode_id = e, agent_id = agent, observations = [unpack obs, unpack no],
                 infos = [PyDict [], inf], actions = [a], rewards = [r], terminated = tm,
                 truncated = tr, extra_model_outputs = ex, len_lookback_buffer = 0\<rparr>"
  using assms unfolding single_agent_episode_def sbind_def
  by (simp split: sum.splits split del: if_split)

lemma map_rows_InrD:
  assumes "map_rows C unpack ma batch i rest cur acc = Inr res" and "ma \<longrightarrow> cur = None"
  shows "\<exists>eps. res = acc @ eps \<and> length eps = length rest \<and>
           (\<forall>j<length rest. \<not> ma \<and>
              single_agent_episode C unpack batch (i + j) (rest ! j) PyNone = Inr (eps ! j))"
  using assms
proof (induction rest arbitrary: i cur acc)
  case Nil
  then show ?case by simp
next
  case (Cons obs rest)
  have single: "\<not> ma"
  proof
    assume "ma"
    with Cons.prems show False
      by (simp split: sum.splits)
  qed
  with Cons.prems(1) obtain ep
    where ep: "single_agent_episode C unpack batch i obs PyNone = Inr ep"
      and run: "map_rows C unpack ma batch (Suc i) rest (Some ep) (acc @ [ep]) = Inr res"
    by (auto simp: row_agent_id_def split: sum.splits)
  from Cons.IH [OF run] single obtain eps
    where res: "res = (acc @ [ep]) @ eps" and len: "length eps = length rest"
      and each: "\<forall>j<length rest.
                   single_agent_episode C unpack batch (Suc i + j) (rest ! j) PyNone = Inr (eps ! j)"
    by blast
  have "\<forall>j<length (obs # rest). \<not> ma \<and>
       single_agent_episode C unpack batch (i + j) ((obs # rest) ! j) PyNone = Inr ((ep # eps) ! j)"
  proof (intro allI impI)
    fix j assume "j < length (obs # rest)"
    then show "\<not> ma \<and> single_agent_episode C unpack batch (i + j) ((obs # rest) ! j) PyNone
                 = Inr ((ep # eps) ! j)"
      using ep each single by (cases j) auto
  qed
  with res len show ?case
    by (intro exI [of _ "ep # eps"]) simp
qed

lemma map_to_episodes_InrD:
  assumes "map_to_episodes C unpack ma batch = Inr out"
  shows "\<exists>col eps. py_getitem batch ''obs'' = Inr col \<and> out = [(''episodes'', eps)] \<and>
           length eps = length col \<and>
           (\<forall>j<length col. \<not> ma \<and>
              single_agent_episode C unpack batch j (col ! j) PyNone = Inr (eps ! j))"
proof -
  from assms obtain col res
    where col: "py_getitem batch ''obs'' = Inr col"
      and run: "map_rows C unpack ma batch 0 col None [] = Inr res"
      and out: "out = [(''episodes'', res)]"
    by (auto simp: map_to_episodes_def sbind_def split: sum.splits)
  from map_rows_InrD [OF run] obtain eps where "res = eps" "length eps = length col"
     "\<forall>j<length col. \<not> ma \<and>
              single_agent_episode C unpack batch (0 + j) (col ! j) PyNone = Inr (eps ! j)"
    by auto
  with col out show ?thesis by auto
qed

lemma map_to_episodes_single_ok:
  assumes col: "py_getitem batch ''obs'' = Inr col"
      and rows: "\<forall>j<length col. \<exists>ep. single_agent_episode C unpack batch j (col ! j) PyNone = Inr ep"
  shows "\<exists>eps. map_to_episodes C unpack False batch = Inr [(''episodes'', eps)]"
proof -
  from rows have "\<forall>j<length col.
      \<exists>ep. single_agent_episode C unpack batch (0 + j) (col ! j) PyNone = Inr ep"
    by simp
  from map_rows_single_ok [OF this, of None "[]"] obtain eps
    where "map_rows C unpack False batch 0 col None [] = Inr eps"
    by auto
  with col show ?thesis
    by (simp add: map_to_episodes_def sbind_Inr)
qed

text \<open>
  C5: when every reserved column (and the observation column \<open>"obs"\<close> that the loop reads) is
  present, all columns have the same number \<open>n\<close> of rows and the multi-agent flag is unset,
  \<open>_map_to_episodes\<close> returns \<open>n\<close> episodes, the \<open>i\<close>-th one built from row \<open>i\<close>; each has two
  observations, two infos, one action and one reward.
\<close>
theorem map_to_episodes_one_episode_per_row:
  assumes present: "\<forall>c \<in> set (''obs'' # SCHEMA C). py_in c batch"
      and rect: "\<forall>(c, col) \<in> set batch. length col = n"
  shows "\<exists>eps. map_to_episodes C unpack False batch = Inr [(''episodes'', eps)] \<and>
           length eps = n \<and>
           (\<forall>i<n. \<exists>ob nob.
              cell batch ''obs'' i = Inr ob \<and> cell batch (NEXT_OBS C) i = Inr nob \<and>
              observations (eps ! i) = [unpack ob, unpack nob] \<and>
              cell batch (EPS_ID C) i = Inr (episode_id (eps ! i)) \<and>
              map Inr (infos (eps ! i)) = [Inr (PyDict []), cell batch (INFOS C) i] \<and>
              map Inr (actions (eps ! i)) = [cell batch (ACTIONS C) i] \<and>
              map Inr (rewards (eps ! i)) = [cell batch (REWARDS C) i]) \<and>
           (\<forall>e \<in> set eps. length (observations e) = 2 \<and> length (infos e) = 2 \<and>
              length (actions e) = 1 \<and> length (rewards e) = 1)"
proof -
  have obs: "py_in ''obs'' batch" and eid: "py_in (EPS_ID C) batch"
    and nobs: "py_in (NEXT_OBS C) batch" and act: "py_in (ACTIONS C) batch"
    and rew: "py_in (REWARDS C) batch" and tmc: "py_in (TERMINATEDS C) batch"
    and inf: "py_in (INFOS C) batch"
    using present by (simp_all add: SCHEMA_def)
  from py_getitem_present [OF obs] obtain col
    where col: "py_getitem batch ''obs'' = Inr col" and mem: "(''obs'', col) \<in> set batch"
    by blast
  from mem rect have len: "length col = n" by auto
  have rows: "\<forall>(k, c) \<in> set batch. i < length c" if "i < n" for i
    using rect that by auto
  have each: "\<forall>j<length col.
      \<exists>ep. single_agent_episode C unpack batch j (col ! j) PyNone = Inr ep"
    using single_agent_episode_ok [OF eid nobs act rew disjI1 [OF tmc] rows] len by blast
  from map_to_episodes_single_ok [OF col each] obtain eps
    where run: "map_to_episodes C unpack False batch = Inr [(''episodes'', eps)]"
    by blast
  from map_to_episodes_InrD [OF run] col
  have leps: "length eps = length col"
    and built: "\<forall>j<length col.
                  single_agent_episode C unpack batch j (col ! j) PyNone = Inr (eps ! j)"
    by auto
  have row: "\<exists>ob nob.
              cell batch ''obs'' i = Inr ob \<and> cell batch (NEXT_OBS C) i = Inr nob \<and>
              observations (eps ! i) = [unpack ob, unpack nob] \<and>
              cell batch (EPS_ID C) i = Inr (episode_id (eps ! i)) \<and>
              map Inr (infos (eps ! i)) = [Inr (PyDict []), cell batch (INFOS C) i] \<and>
              map Inr (actions (eps ! i)) = [cell batch (ACTIONS C) i] \<and>
              map Inr (rewards (eps ! i)) = [cell batch (REWARDS C) i]"
    if "i < n" for i
  proof -
    from that len built
    have b: "single_agent_episode C unpack batch i (col ! i) PyNone = Inr (eps ! i)"
      by simp
    have o: "cell batch ''obs'' i = Inr (col ! i)"
      using col that len by (simp add: cell_def sbind_Inr py_index_def)
    from single_agent_episode_InrD [OF b] inf o show ?thesis
      by auto
  qed
  have shape: "length (observations e) = 2 \<and> length (infos e) = 2 \<and>
                 length (actions e) = 1 \<and> length (rewards e) = 1"
    if "e \<in> set eps" for e
  proof -
    from that obtain i where "i < length eps" and "e = eps ! i"
      by (auto simp: in_set_conv_nth)
    with leps built
    have "single_agent_episode C unpack batch i (col ! i) PyNone = Inr e"
      by simp
    from single_agent_episode_InrD [OF this] show ?thesis
      by auto
  qed
  from run leps len row shape show ?thesis
    by blast
qed

theorem map_to_episodes_one_episode_per_row_witness:
  "\<exists>eps. map_to_episodes rllib_columns (\<lambda>v. v) False example_batch = Inr [(''episodes'', eps)] \<and>
     length eps = 2 \<and> length (observations (eps ! 1)) = 2 \<and> length (infos (eps ! 1)) = 2 \<and>
     length (actions (eps ! 1)) = 1 \<and> length (rewards (eps ! 1)) = 1 \<and>
     observations (eps ! 1) = [PyArr 11, PyArr 12]"
proof -
  have present: "\<forall>c \<in> set (''obs'' # SCHEMA rllib_columns). py_in c example_batch"
    by (simp add: SCHEMA_def rllib_columns_def py_in_def example_batch_def)
  have rect: "\<forall>(c, col) \<in> set example_batch. length col = 2"
    by (simp add: example_batch_def)
  from map_to_episodes_one_episode_per_row [OF present rect, of "\<lambda>v. v"] obtain eps
    where run: "map_to_episodes rllib_columns (\<lambda>v. v) False example_batch
                  = Inr [(''episodes'', eps)]"
      and len: "length eps = 2"
      and rows: "\<forall>i<2. \<exists>ob nob.
              cell example_batch ''obs'' i = Inr ob \<and>
              cell example_batch (NEXT_OBS rllib_columns) i = Inr nob \<and>
              observations (eps ! i) = [ob, nob]"
      and shape: "\<forall>e \<in> set eps. length (observations e) = 2 \<and> length (infos e) = 2 \<and>
              length (actions e) = 1 \<and> length (rewards e) = 1"
    by blast
  from len have "eps ! 1 \<in> set eps" by simp
  with shape have s1: "length (observations (eps ! 1)) = 2 \<and> length (infos (eps ! 1)) = 2 \<and>
     length (actions (eps ! 1)) = 1 \<and> length (rewards (eps ! 1)) = 1"
    by blast
  from rows [rule_format, of 1] have "observations (eps ! 1) = [PyArr 11, PyArr 12]"
    by (simp add: cell_def sbind_def py_getitem_def py_index_def example_batch_def
        rllib_columns_def)
  with run len s1 show ?thesis by blast
qed

lemma map_to_episodes_first_row_fails:
  assumes "py_getitem batch ''obs'' = Inr (obs # rest)"
      and "single_agent_episode C unpack batch 0 obs PyNone = Inl e"
  shows "map_to_episodes C unpack False batch = Inl e"
  using assms by (simp add: map_to_episodes_def sbind_Inr sbind_Inl row_agent_id_def)

lemma obs_column_nonempty:
  assumes "py_in ''obs'' batch" and "\<forall>(c, col) \<in> set batch. length col = n" and "0 < n"
  shows "\<exists>obs rest. py_getitem batch ''obs'' = Inr (obs # rest)"
proof -
  from py_getitem_present [OF assms(1)] obtain col
    where col: "py_getitem batch ''obs'' = Inr col" and "(''obs'', col) \<in> set batch"
    by blast
  with assms(2,3) have "col \<noteq> []" by auto
  with col show ?thesis by (cases col) auto
qed

lemma single_agent_episode_no_terminated:
  assumes eid: "py_in (EPS_ID C) batch" and nobs: "py_in (NEXT_OBS C) batch"
      and act: "py_in (ACTIONS C) batch" and rew: "py_in (REWARDS C) batch"
      and no_term: "\<not> py_in (TERMINATEDS C) batch" and no_dones: "\<not> py_in ''dones'' batch"
      and rows: "\<forall>(k, col) \<in> set batch. i < length col"
  shows "single_agent_episode C unpack batch i obs agent = Inl (KeyError ''dones'')"
proof -
  obtain e where e: "cell batch (EPS_ID C) i = Inr e"
    using cell_present [OF eid rows] by blast
  obtain no where no: "cell batch (NEXT_OBS C) i = Inr no"
    using cell_present [OF nobs rows] by blast
  obtain inf where inf:
    "(if py_in (INFOS C) batch then cell batch (INFOS C) i else Inr (PyDict [])) = Inr inf"
    using cell_present [OF _ rows, of "INFOS C"] by (cases "py_in (INFOS C) batch") auto
  obtain a where a: "cell batch (ACTIONS C) i = Inr a"
    using cell_present [OF act rows] by blast
  obtain r where r: "cell batch (REWARDS C) i = Inr r"
    using cell_present [OF rew rows] by blast
  have tm: "cell batch (if py_in (TERMINATEDS C) batch then TERMINATEDS C else ''dones'') i
              = Inl (KeyError ''dones'')"
    using no_term no_dones by (simp add: cell_absent)
  show ?thesis
    unfolding single_agent_episode_def e no inf a r tm sbind_Inr sbind_Inl ..
qed

lemma single_agent_episode_missing:
  assumes missing: "\<not> py_in (EPS_ID C) batch \<or> \<not> py_in (NEXT_OBS C) batch \<or>
                    \<not> py_in (ACTIONS C) batch \<or> \<not> py_in (REWARDS C) batch"
      and rows: "\<forall>(k, col) \<in> set batch. i < length col"
  shows "\<exists>c \<in> {EPS_ID C, NEXT_OBS C, ACTIONS C, REWARDS C}.
           \<not> py_in c batch \<and> single_agent_episode C unpack batch i obs agent = Inl (KeyError c)"
proof (cases "py_in (EPS_ID C) batch")
  case False
  then have "single_agent_episode C unpack batch i obs agent = Inl (KeyError (EPS_ID C))"
    by (simp add: single_agent_episode_def cell_absent sbind_Inl)
  with False show ?thesis by blast
next
  case eid: True
  obtain e where e: "cell batch (EPS_ID C) i = Inr e"
    using cell_present [OF eid rows] by blast
  show ?thesis
  proof (cases "py_in (NEXT_OBS C) batch")
    case False
    then have "single_agent_episode C unpack batch i obs agent = Inl (KeyError (NEXT_OBS C))"
      by (simp add: single_agent_episode_def e cell_absent sbind_Inl sbind_Inr)
    with False show ?thesis by blast
  next
    case nobs: True
    obtain no where no: "cell batch (NEXT_OBS C) i = Inr no"
      using cell_present [OF nobs rows] by blast
    obtain inf where inf:
      "(if py_in (INFOS C) batch then cell batch (INFOS C) i else Inr (PyDict [])) = Inr inf"
      using cell_present [OF _ rows, of "INFOS C"] by (cases "py_in (INFOS C) batch") auto
    show ?thesis
    proof (cases "py_in (ACTIONS C) batch")
      case False
      then have "cell batch (ACTIONS C) i = Inl (KeyError (ACTIONS C))"
        by (simp add: cell_absent)
      then have "single_agent_episode C unpack batch i obs agent = Inl (KeyError (ACTIONS C))"
        unfolding single_agent_episode_def e no inf sbind_Inr by (simp add: sbind_Inl)
      with False show ?thesis by blast
    next
      case act: True
      obtain a where a: "cell batch (ACTIONS C) i = Inr a"
        using cell_present [OF act rows] by blast
      from missing eid nobs act have rew: "\<not> py_in (REWARDS C) batch"
        by blast
      then have "cell batch (REWARDS C) i = Inl (KeyError (REWARDS C))"
        by (simp add: cell_absent)
      then have "single_agent_episode C unpack batch i obs agent = Inl (KeyError (REWARDS C))"
        unfolding single_agent_episode_def e no inf a sbind_Inr by (simp add: sbind_Inl)
      with rew show ?thesis by blast
    qed
  qed
qed

lemma row_agent_id_ok:
  assumes "\<forall>(k, col) \<in> set batch. i < length col"
  shows "\<exists>agent. row_agent_id C multi_agent batch i = Inr agent"
  using cell_present [OF _ assms, of "AGENT_ID C"] cell_present [OF _ assms, of "''agent_index''"]
  by (auto simp: row_agent_id_def)

lemma map_to_episodes_multi_agent_row:
  assumes "py_getitem batch ''obs'' = Inr (obs # rest)"
      and "\<forall>(k, col) \<in> set batch. 0 < length col"
  shows "map_to_episodes C unpack True batch = Inl (UnboundLocalError ''episode'')"
proof -
  from row_agent_id_ok [OF assms(2)] obtain agent
    where "row_agent_id C True batch 0 = Inr agent" by blast
  with assms(1) show ?thesis
    by (simp add: map_to_episodes_def sbind_Inr sbind_Inl)
qed

text \<open>
  C3, as stated, fails: a batch whose only column is an empty \<open>"obs"\<close> lacks the action column
  (and three more required columns), and the call returns an empty list of episodes without
  any failure.
\<close>
theorem map_to_episodes_missing_column_counterexample:
  "\<not> py_in (ACTIONS rllib_columns) empty_batch \<and>
   map_to_episodes rllib_columns (\<lambda>v. v) False empty_batch = Inr [(''episodes'', [])]"
  by (simp add: rllib_columns_def py_in_def empty_batch_def map_to_episodes_def sbind_def
      py_getitem_def)

text \<open>
  C3, as amended: a batch that lacks one of the required columns and either lacks \<open>"obs"\<close> or
  has at least one row makes \<open>_map_to_episodes\<close> fail without producing episodes. In
  single-agent mode the exception is the \<open>KeyError\<close> of a required column that is missing; in
  multi-agent mode it is the \<open>KeyError\<close> of \<open>"obs"\<close> or the \<open>UnboundLocalError\<close> of the
  unimplemented branch. The source has no exception of its own for a malformed batch.
\<close>
theorem map_to_episodes_missing_required_column:
  assumes missing: "\<exists>c \<in> set (required_columns C). \<not> py_in c batch"
      and rows: "py_in ''obs'' batch \<longrightarrow> 0 < n"
      and rect: "\<forall>(c, col) \<in> set batch. length col = n"
  shows "\<exists>e. map_to_episodes C unpack multi_agent batch = Inl e \<and>
           (\<not> multi_agent \<longrightarrow>
              (\<exists>c \<in> set (required_columns C). \<not> py_in c batch \<and> e = KeyError c)) \<and>
           (multi_agent \<longrightarrow>
              e = (if py_in ''obs'' batch then UnboundLocalError ''episode''
                   else KeyError ''obs''))"
proof (cases "py_in ''obs'' batch")
  case False
  then have "map_to_episodes C unpack multi_agent batch = Inl (KeyError ''obs'')"
    by (simp add: map_to_episodes_def py_getitem_absent sbind_Inl)
  with False show ?thesis
    by (auto simp: required_columns_def)
next
  case True
  with rows have pos: "0 < n" by simp
  from obs_column_nonempty [OF True rect pos] obtain obs rest
    where col: "py_getitem batch ''obs'' = Inr (obs # rest)" by blast
  have row0: "\<forall>(k, col) \<in> set batch. 0 < length col"
    using rect pos by auto
  show ?thesis
  proof (cases multi_agent)
    case True
    with map_to_episodes_multi_agent_row [OF col row0] \<open>py_in ''obs'' batch\<close> show ?thesis
      by simp
  next
    case False
    from missing \<open>py_in ''obs'' batch\<close>
    have "\<not> py_in (EPS_ID C) batch \<or> \<not> py_in (NEXT_OBS C) batch \<or>
          \<not> py_in (ACTIONS C) batch \<or> \<not> py_in (REWARDS C) batch"
      by (auto simp: required_columns_def)
    from single_agent_episode_missing [OF this row0] obtain c
      where c: "c \<in> {EPS_ID C, NEXT_OBS C, ACTIONS C, REWARDS C}" "\<not> py_in c batch"
        and fails: "single_agent_episode C unpack batch 0 obs PyNone = Inl (KeyError c)"
      by blast
    from c(1) have "c \<in> set (required_columns C)"
      by (auto simp: required_columns_def)
    with map_to_episodes_first_row_fails [OF col fails] c(2) False show ?thesis
      by auto
  qed
qed

theorem map_to_episodes_missing_required_column_witness:
  "map_to_episodes rllib_columns (\<lambda>v. v) False batch_without_actions = Inl (KeyError ''actions'') \<and>
   map_to_episodes rllib_columns (\<lambda>v. v) True batch_without_actions
     = Inl (UnboundLocalError ''episode'')"
proof -
  have missing: "\<exists>c \<in> set (required_columns rllib_columns). \<not> py_in c batch_without_actions"
    by (simp add: required_columns_def rllib_columns_def py_in_def batch_without_actions_def)
  have rows: "py_in ''obs'' batch_without_actions \<longrightarrow> 0 < (1::nat)"
    by simp
  have rect: "\<forall>(c, col) \<in> set batch_without_actions. length col = 1"
    by (simp add: batch_without_actions_def)
  have obs: "py_in ''obs'' batch_without_actions"
    by (simp add: py_in_def batch_without_actions_def)
  have others: "py_in c batch_without_actions"
    if "c \<in> set (required_columns rllib_columns)" "c \<noteq> ''actions''" for c
    using that
    by (auto simp: required_columns_def rllib_columns_def py_in_def batch_without_actions_def)
  from map_to_episodes_missing_required_column [OF missing rows rect, of "\<lambda>v. v" False]
  obtain c where "c \<in> set (required_columns rllib_columns)"
      and "\<not> py_in c batch_without_actions"
      and "map_to_episodes rllib_columns (\<lambda>v. v) False batch_without_actions = Inl (KeyError c)"
    by auto
  with others have single:
    "map_to_episodes rllib_columns (\<lambda>v. v) False batch_without_actions = Inl (KeyError ''actions'')"
    by blast
  from map_to_episodes_missing_required_column [OF missing rows rect, of "\<lambda>v. v" True] obs
  have "map_to_episodes rllib_columns (\<lambda>v. v) True batch_without_actions
          = Inl (UnboundLocalError ''episode'')"
    by auto
  with single show ?thesis by blast
qed

text \<open>
  C10: on a single-agent batch with the five required columns, but with neither the
  terminated-flag column nor the legacy \<open>"dones"\<close> column, the first row fails with the
  \<open>KeyError\<close> of \<open>"dones"\<close>; when one of the two is present and the truncated-flag column is
  absent, the call succeeds and every episode has \<open>truncated = False\<close>.
\<close>
theorem map_to_episodes_terminated_column_required:
  assumes present: "\<forall>c \<in> set (required_columns C). py_in c batch"
      and rect: "\<forall>(c, col) \<in> set batch. length col = n"
  shows "(\<not> py_in (TERMINATEDS C) batch \<and> \<not> py_in ''dones'' batch \<and> 0 < n \<longrightarrow>
            map_to_episodes C unpack False batch = Inl (KeyError ''dones'')) \<and>
         ((py_in (TERMINATEDS C) batch \<or> py_in ''dones'' batch) \<and>
            \<not> py_in (TRUNCATEDS C) batch \<longrightarrow>
            (\<exists>eps. map_to_episodes C unpack False batch = Inr [(''episodes'', eps)] \<and>
               length eps = n \<and> (\<forall>e \<in> set eps. truncated e = PyBool False)))"
proof (intro conjI impI)
  have obs: "py_in ''obs'' batch" and eid: "py_in (EPS_ID C) batch"
    and nobs: "py_in (NEXT_OBS C) batch" and act: "py_in (ACTIONS C) batch"
    and rew: "py_in (REWARDS C) batch"
    using present by (simp_all add: required_columns_def)
  {
    assume a: "\<not> py_in (TERMINATEDS C) batch \<and> \<not> py_in ''dones'' batch \<and> 0 < n"
    then have pos: "0 < n" by simp
    from obs_column_nonempty [OF obs rect pos] obtain ob rest
      where col: "py_getitem batch ''obs'' = Inr (ob # rest)" by blast
    have row0: "\<forall>(k, col) \<in> set batch. 0 < length col"
      using rect pos by auto
    from a single_agent_episode_no_terminated [OF eid nobs act rew _ _ row0]
    have "single_agent_episode C unpack batch 0 ob PyNone = Inl (KeyError ''dones'')"
      by blast
    from map_to_episodes_first_row_fails [OF col this]
    show "map_to_episodes C unpack False batch = Inl (KeyError ''dones'')" .
  next
    assume a: "(py_in (TERMINATEDS C) batch \<or> py_in ''dones'' batch) \<and>
               \<not> py_in (TRUNCATEDS C) batch"
    then have tmc: "py_in (TERMINATEDS C) batch \<or> py_in ''dones'' batch"
      and no_trunc: "\<not> py_in (TRUNCATEDS C) batch" by simp_all
    from py_getitem_present [OF obs] obtain col
      where col: "py_getitem batch ''obs'' = Inr col" and mem: "(''obs'', col) \<in> set batch"
      by blast
    from mem rect have len: "length col = n" by auto
    have rows: "\<forall>(k, c) \<in> set batch. i < length c" if "i < n" for i
      using rect that by auto
    have each: "\<forall>j<length col.
        \<exists>ep. single_agent_episode C unpack batch j (col ! j) PyNone = Inr ep"
      using single_agent_episode_ok [OF eid nobs act rew tmc rows] len by blast
    from map_to_episodes_single_ok [OF col each] obtain eps
      where run: "map_to_episodes C unpack False batch = Inr [(''episodes'', eps)]"
      by blast
    from map_to_episodes_InrD [OF run] col
    have leps: "length eps = length col"
      and built: "\<forall>j<length col.
                    single_agent_episode C unpack batch j (col ! j) PyNone = Inr (eps ! j)"
      by auto
    have "truncated e = PyBool False" if "e \<in> set eps" for e
    proof -
      from that obtain i where "i < length eps" and "e = eps ! i"
        by (auto simp: in_set_conv_nth)
      with leps built
      have "single_agent_episode C unpack batch i (col ! i) PyNone = Inr e"
        by simp
      from single_agent_episode_InrD [OF this] no_trunc show ?thesis
        by auto
    qed
    with run leps len
    show "\<exists>eps. map_to_episodes C unpack False batch = Inr [(''episodes'', eps)] \<and>
               length eps = n \<and> (\<forall>e \<in> set eps. truncated e = PyBool False)"
      by blast
  }
qed

theorem map_to_episodes_terminated_column_required_witness:
  "map_to_episodes rllib_columns (\<lambda>v. v) False batch_without_flags = Inl (KeyError ''dones'') \<and>
   (\<exists>eps. map_to_episodes rllib_columns (\<lambda>v. v) False legacy_batch = Inr [(''episodes'', eps)] \<and>
      length eps = 1 \<and> truncated (eps ! 0) = PyBool False)"
proof -
  have p1: "\<forall>c \<in> set (required_columns rllib_columns). py_in c batch_without_flags"
    by (simp add: required_columns_def rllib_columns_def py_in_def batch_without_flags_def)
  have r1: "\<forall>(c, col) \<in> set batch_without_flags. length col = 1"
    by (simp add: batch_without_flags_def)
  have a1: "\<not> py_in (TERMINATEDS rllib_columns) batch_without_flags \<and>
            \<not> py_in ''dones'' batch_without_flags \<and> 0 < (1::nat)"
    by (simp add: rllib_columns_def py_in_def batch_without_flags_def)
  have p2: "\<forall>c \<in> set (required_columns rllib_columns). py_in c legacy_batch"
    by (simp add: required_columns_def rllib_columns_def py_in_def legacy_batch_def)
  have r2: "\<forall>(c, col) \<in> set legacy_batch. length col = 1"
    by (simp add: legacy_batch_def)
  have a2: "(py_in (TERMINATEDS rllib_columns) legacy_batch \<or> py_in ''dones'' legacy_batch) \<and>
            \<not> py_in (TRUNCATEDS rllib_columns) legacy_batch"
    by (simp add: rllib_columns_def py_in_def legacy_batch_def)
  from map_to_episodes_terminated_column_required [OF p1 r1, of "\<lambda>v. v"] a1
  have first: "map_to_episodes rllib_columns (\<lambda>v. v) False batch_without_flags
                 = Inl (KeyError ''dones'')"
    by blast
  from map_to_episodes_terminated_column_required [OF p2 r2, of "\<lambda>v. v"] a2
  obtain eps where run: "map_to_episodes rllib_columns (\<lambda>v. v) False legacy_batch
                 = Inr [(''episodes'', eps)]"
     and len: "length eps = 1" and tr: "\<forall>e \<in> set eps. truncated e = PyBool False"
    by blast
  from len have "eps ! 0 \<in> set eps" by simp
  with tr have "truncated (eps ! 0) = PyBool False" by blast
  with first run len show ?thesis by blast
qed

lemma cell_InrD:
  assumes "cell batch c i = Inr v"
  shows "\<exists>col. py_getitem batch c = Inr col \<and> i < length col \<and> v = col ! i"
  using assms
  by (auto simp: cell_def sbind_def py_index_def split: sum.splits if_splits)

lemma construct_rows_kept:
  assumes "\<forall>j<length rest. \<forall>args.
             single_agent_episode C unpack batch (i + j) (rest ! j) PyNone = Inr args \<longrightarrow>
             (\<forall>w. assign_id w (episode_id args) = (episode_id args, w))"
  shows "construct_rows assign_id C unpack multi_agent batch i rest episode episodes w
           = (map_rows C unpack multi_agent batch i rest episode episodes, w)"
  using assms
proof (induction rest arbitrary: i episode episodes)
  case Nil
  then show ?case by simp
next
  case (Cons obs rest)
  have later: "\<forall>j<length rest. \<forall>args.
             single_agent_episode C unpack batch (Suc i + j) (rest ! j) PyNone = Inr args \<longrightarrow>
             (\<forall>w. assign_id w (episode_id args) = (episode_id args, w))"
  proof (intro allI impI)
    fix j args w
    assume j: "j < length rest"
      and a: "single_agent_episode C unpack batch (Suc i + j) (rest ! j) PyNone = Inr args"
    from j have "Suc j < length (obs # rest)" by simp
    moreover from a
    have "single_agent_episode C unpack batch (i + Suc j) ((obs # rest) ! Suc j) PyNone = Inr args"
      by simp
    ultimately show "assign_id w (episode_id args) = (episode_id args, w)"
      using Cons.prems by blast
  qed
  note IH = Cons.IH [OF later]
  show ?case
  proof (cases multi_agent)
    case True
    with IH show ?thesis
      by (simp split: sum.splits option.splits)
  next
    case False
    then have agent: "row_agent_id C multi_agent batch i = Inr PyNone"
      by (simp add: row_agent_id_def)
    show ?thesis
    proof (cases "single_agent_episode C unpack batch i obs PyNone")
      case (Inl e)
      with False agent show ?thesis by simp
    next
      case (Inr args)
      then have "single_agent_episode C unpack batch (i + 0) ((obs # rest) ! 0) PyNone = Inr args"
        by simp
      with Cons.prems have "assign_id w (episode_id args) = (episode_id args, w)"
        by (metis length_Cons zero_less_Suc)
      with False agent Inr IH show ?thesis
        by simp
    qed
  qed
qed

lemma map_to_episodes_constructed_kept:
  assumes kept: "\<forall>col. py_getitem batch (EPS_ID C) = Inr col \<longrightarrow>
                   (\<forall>c \<in> set col. \<forall>w. assign_id w c = (c, w))"
  shows "map_to_episodes_constructed assign_id C unpack multi_agent batch w
           = (map_to_episodes C unpack multi_agent batch, w)"
proof (cases "py_getitem batch ''obs''")
  case (Inl e)
  then show ?thesis
    by (simp add: map_to_episodes_constructed_def map_to_episodes_def sbind_Inl)
next
  case (Inr col)
  have "\<forall>j<length col. \<forall>args.
          single_agent_episode C unpack batch (0 + j) (col ! j) PyNone = Inr args \<longrightarrow>
          (\<forall>w. assign_id w (episode_id args) = (episode_id args, w))"
  proof (intro allI impI)
    fix j args w
    assume "single_agent_episode C unpack batch (0 + j) (col ! j) PyNone = Inr args"
    from single_agent_episode_InrD [OF this]
    have "cell batch (EPS_ID C) (0 + j) = Inr (episode_id args)"
      by auto
    from cell_InrD [OF this] obtain ids
      where "py_getitem batch (EPS_ID C) = Inr ids" and "episode_id args \<in> set ids"
      by auto
    with kept show "assign_id w (episode_id args) = (episode_id args, w)"
      by blast
  qed
  from construct_rows_kept [OF this, where multi_agent = multi_agent and episode = None
      and episodes = "[]" and w = w]
  have "construct_rows assign_id C unpack multi_agent batch 0 col None [] w
          = (map_rows C unpack multi_agent batch 0 col None [], w)" .
  with Inr show ?thesis
    by (simp add: map_to_episodes_constructed_def map_to_episodes_def sbind_def
        split: sum.splits)
qed

lemma rllib_assign_id_truthy: "py_truthy c \<Longrightarrow> rllib_assign_id uuid4 k c = (c, k)"
  by (simp add: rllib_assign_id_def)

text \<open>
  C9, as stated, fails: on a batch whose one episode id is \<open>0\<close>, the constructor that RLlib
  ships replaces the id by a fresh identifier at each call, and the second invocation, run in
  the state that the first one leaves, returns an episode with another id.
\<close>
theorem map_to_episodes_constructed_differs_counterexample:
  "map_to_episodes_constructed (rllib_assign_id example_uuid4) rllib_columns (\<lambda>v. v) False
       zero_id_batch 0
     = (Inr [(''episodes'',
              [\<lparr>episode_id = PyStr ''uuid-'', agent_id = PyNone,
                observations = [PyArr 10, PyArr 11], infos = [PyDict [], PyDict []],
                actions = [PyInt 0], rewards = [PyInt 1], terminated = PyBool True,
                truncated = PyBool False, extra_model_outputs = [],
                len_lookback_buffer = 0\<rparr>])], 1) \<and>
   map_to_episodes_constructed (rllib_assign_id example_uuid4) rllib_columns (\<lambda>v. v) False
       zero_id_batch 1
     = (Inr [(''episodes'',
              [\<lparr>episode_id = PyStr ''uuid-x'', agent_id = PyNone,
                observations = [PyArr 10, PyArr 11], infos = [PyDict [], PyDict []],
                actions = [PyInt 0], rewards = [PyInt 1], terminated = PyBool True,
                truncated = PyBool False, extra_model_outputs = [],
                len_lookback_buffer = 0\<rparr>])], 2)"
  by (simp add: map_to_episodes_constructed_def py_getitem_def zero_id_batch_def
      row_agent_id_def single_agent_episode_def cell_def sbind_def py_index_def py_in_def
      rllib_columns_def SCHEMA_def rllib_assign_id_def example_uuid4_def)

text \<open>
  C9, as amended: when the constructor keeps every episode id of the batch as it is passed
  and draws nothing from the runtime for it (the constructor of RLlib does so for an id that
  counts as true), two invocations of \<open>_map_to_episodes\<close> on the same batch and flag, from
  whatever states of the runtime, have the same outcome and leave the state as it was. The
  episodes they return are as many as the rows, the \<open>i\<close>-th one being what the constructor
  call yields for row \<open>i\<close>; and they do return episodes on a single-agent batch that has the
  required columns, a terminated or done column, and columns of equal length.
\<close>
theorem map_to_episodes_repeatable:
  assumes kept: "\<forall>col. py_getitem batch (EPS_ID C) = Inr col \<longrightarrow>
                   (\<forall>c \<in> set col. \<forall>w. assign_id w c = (c, w))"
  shows "\<exists>res.
           map_to_episodes_constructed assign_id C unpack multi_agent batch w = (res, w) \<and>
           map_to_episodes_constructed assign_id C unpack multi_agent batch w' = (res, w') \<and>
           (\<forall>eps. res = Inr [(''episodes'', eps)] \<longrightarrow>
              (\<exists>col. py_getitem batch ''obs'' = Inr col \<and> length eps = length col \<and>
                 (\<forall>i<length col.
                    single_agent_episode C unpack batch i (col ! i) PyNone = Inr (eps ! i)))) \<and>
           (\<not> multi_agent \<and> (\<forall>c \<in> set (required_columns C). py_in c batch) \<and>
            (py_in (TERMINATEDS C) batch \<or> py_in ''dones'' batch) \<and>
            (\<forall>(c, col) \<in> set batch. length col = rows) \<longrightarrow>
              (\<exists>eps. res = Inr [(''episodes'', eps)] \<and> length eps = rows))"
proof -
  let ?res = "map_to_episodes C unpack multi_agent batch"
  have 1: "map_to_episodes_constructed assign_id C unpack multi_agent batch w = (?res, w)"
    for w
    by (rule map_to_episodes_constructed_kept [OF kept])
  have 2: "\<exists>col. py_getitem batch ''obs'' = Inr col \<and> length eps = length col \<and>
                 (\<forall>i<length col.
                    single_agent_episode C unpack batch i (col ! i) PyNone = Inr (eps ! i))"
    if "?res = Inr [(''episodes'', eps)]" for eps
    using map_to_episodes_InrD [OF that] by auto
  have 3: "\<exists>eps. ?res = Inr [(''episodes'', eps)] \<and> length eps = rows"
    if wf: "\<not> multi_agent \<and> (\<forall>c \<in> set (required_columns C). py_in c batch) \<and>
            (py_in (TERMINATEDS C) batch \<or> py_in ''dones'' batch) \<and>
            (\<forall>(c, col) \<in> set batch. length col = rows)"
  proof -
    from wf have single: "\<not> multi_agent"
      and obs: "py_in ''obs'' batch" and eid: "py_in (EPS_ID C) batch"
      and nobs: "py_in (NEXT_OBS C) batch" and act: "py_in (ACTIONS C) batch"
      and rew: "py_in (REWARDS C) batch"
      and tmc: "py_in (TERMINATEDS C) batch \<or> py_in ''dones'' batch"
      and rect: "\<forall>(c, col) \<in> set batch. length col = rows"
      by (simp_all add: required_columns_def)
    from py_getitem_present [OF obs] obtain col
      where col: "py_getitem batch ''obs'' = Inr col" and mem: "(''obs'', col) \<in> set batch"
      by blast
    from mem rect have len: "length col = rows" by auto
    have enough: "\<forall>(k, c) \<in> set batch. i < length c" if "i < rows" for i
      using rect that by auto
    have each: "\<forall>j<length col.
        \<exists>ep. single_agent_episode C unpack batch j (col ! j) PyNone = Inr ep"
      using single_agent_episode_ok [OF eid nobs act rew tmc enough] len by blast
    from map_to_episodes_single_ok [OF col each] single obtain eps
      where run: "?res = Inr [(''episodes'', eps)]"
      by auto
    from map_to_episodes_InrD [OF run] col len have "length eps = rows"
      by auto
    with run show ?thesis by blast
  qed
  show ?thesis
    apply (intro exI [of _ ?res] conjI allI impI)
       apply (rule 1)
      apply (rule 1)
     apply (rule 2)
     apply assumption
    apply (rule 3)
    apply assumption
    done
qed

theorem map_to_episodes_repeatable_witness:
  "\<exists>eps. map_to_episodes_constructed (rllib_assign_id example_uuid4) rllib_columns (\<lambda>v. v) False
            legacy_batch 0 = (Inr [(''episodes'', eps)], 0) \<and>
         map_to_episodes_constructed (rllib_assign_id example_uuid4) rllib_columns (\<lambda>v. v) False
            legacy_batch 3 = (Inr [(''episodes'', eps)], 3) \<and>
         length eps = 1 \<and>
         single_agent_episode rllib_columns (\<lambda>v. v) legacy_batch 0 (PyArr 10) PyNone
           = Inr (eps ! 0)"
proof -
  have kept: "\<forall>col. py_getitem legacy_batch (EPS_ID rllib_columns) = Inr col \<longrightarrow>
                (\<forall>c \<in> set col. \<forall>w. rllib_assign_id example_uuid4 w c = (c, w))"
    by (auto simp: py_getitem_def legacy_batch_def rllib_columns_def rllib_assign_id_truthy)
  have wf: "\<not> False \<and> (\<forall>c \<in> set (required_columns rllib_columns). py_in c legacy_batch) \<and>
            (py_in (TERMINATEDS rllib_columns) legacy_batch \<or> py_in ''dones'' legacy_batch) \<and>
            (\<forall>(c, col) \<in> set legacy_batch. length col = 1)"
    by (simp add: required_columns_def rllib_columns_def py_in_def legacy_batch_def)
  have col: "py_getitem legacy_batch ''obs'' = Inr [PyArr 10]"
    by (simp add: py_getitem_def legacy_batch_def)
  from map_to_episodes_repeatable [OF kept, of "\<lambda>v. v" False 0 3 1] wf
  obtain res eps where r0: "map_to_episodes_constructed (rllib_assign_id example_uuid4)
        rllib_columns (\<lambda>v. v) False legacy_batch 0 = (res, 0)"
    and r3: "map_to_episodes_constructed (rllib_assign_id example_uuid4)
        rllib_columns (\<lambda>v. v) False legacy_batch 3 = (res, 3)"
    and built: "\<forall>eps. res = Inr [(''episodes'', eps)] \<longrightarrow>
              (\<exists>col. py_getitem legacy_batch ''obs'' = Inr col \<and> length eps = length col \<and>
                 (\<forall>i<length col.
                    single_agent_episode rllib_columns (\<lambda>v. v) legacy_batch i (col ! i) PyNone
                      = Inr (eps ! i)))"
    and res: "res = Inr [(''episodes'', eps)]" and len: "length eps = 1"
    by (elim exE conjE) auto
  from built [rule_format, OF res] col
  have "single_agent_episode rllib_columns (\<lambda>v. v) legacy_batch 0 (PyArr 10) PyNone
          = Inr (eps ! 0)"
    by auto
  with r0 r3 res len show ?thesis
    by (intro exI [of _ eps]) simp
qed

section \<open>Properties of \<open>OfflinePreLearner\<close>\<close>

lemma filter_other_keys:
  assumes "m \<notin> fst ` set xs"
  shows "filter (\<lambda>kv. fst kv \<noteq> m) xs = xs"
  using assms by (induction xs) auto

lemma py_delitem_distinct:
  assumes "distinct (map fst (kept @ (m, d) # rest))"
  shows "py_delitem (kept @ (m, d) # rest) m = Inr (kept @ rest)"
proof -
  from assms have "m \<notin> fst ` set kept" and "m \<notin> fst ` set rest"
    by auto
  then show ?thesis
    by (simp add: py_delitem_def py_in_def filter_other_keys)
qed

lemma filter_keys_skip:
  assumes "m \<notin> fst ` set xs"
  shows "filter (\<lambda>kv. fst kv \<in> insert m K) xs = filter (\<lambda>kv. fst kv \<in> K) xs"
  using assms by (intro filter_cong) auto

lemma remove_untrained_inv:
  assumes "distinct (map fst (kept @ rest))"
  shows "\<exists>rest'. remove_untrained pol (map fst rest) (b\<lparr>policy_batches := kept @ rest\<rparr>)
                   = Inr (b\<lparr>policy_batches := kept @ rest'\<rparr>) \<and>
           set rest' \<subseteq> set rest \<and>
           filter (\<lambda>kv. fst kv \<in> fst ` set rest') rest = rest' \<and>
           (\<forall>xs m d ys. rest = xs @ (m, d) # ys \<longrightarrow>
              (m \<in> fst ` set rest' \<longleftrightarrow>
               should_module_be_updated pol m
                 (b\<lparr>policy_batches :=
                      kept @ filter (\<lambda>kv. fst kv \<in> fst ` set rest') xs @ (m, d) # ys\<rparr>)))"
  using assms
proof (induction rest arbitrary: kept)
  case Nil
  then show ?case by simp
next
  case (Cons kv rest)
  obtain m d where kv: "kv = (m, d)" by (cases kv)
  let ?B = "b\<lparr>policy_batches := kept @ (m, d) # rest\<rparr>"
  from Cons.prems kv have m_rest: "m \<notin> fst ` set rest"
    by auto
  show ?case
  proof (cases "should_module_be_updated pol m ?B")
    case True
    from Cons.prems kv have "distinct (map fst ((kept @ [(m, d)]) @ rest))"
      by simp
    from Cons.IH [OF this] obtain r
      where run: "remove_untrained pol (map fst rest)
                    (b\<lparr>policy_batches := (kept @ [(m, d)]) @ rest\<rparr>)
                  = Inr (b\<lparr>policy_batches := (kept @ [(m, d)]) @ r\<rparr>)"
        and sub: "set r \<subseteq> set rest"
        and filt: "filter (\<lambda>kv. fst kv \<in> fst ` set r) rest = r"
        and iff: "\<forall>xs m' d' ys. rest = xs @ (m', d') # ys \<longrightarrow>
              (m' \<in> fst ` set r \<longleftrightarrow>
               should_module_be_updated pol m'
                 (b\<lparr>policy_batches :=
                      (kept @ [(m, d)]) @ filter (\<lambda>kv. fst kv \<in> fst ` set r) xs
                        @ (m', d') # ys\<rparr>))"
      by (elim exE conjE)
    let ?r = "(m, d) # r"
    have keys: "fst ` set ?r = insert m (fst ` set r)" by simp
    have 1: "remove_untrained pol (map fst (kv # rest)) (b\<lparr>policy_batches := kept @ kv # rest\<rparr>)
               = Inr (b\<lparr>policy_batches := kept @ ?r\<rparr>)"
      using True run kv by simp
    have 2: "set ?r \<subseteq> set (kv # rest)"
      using sub kv by auto
    have 3: "filter (\<lambda>kv. fst kv \<in> fst ` set ?r) (kv # rest) = ?r"
      unfolding keys kv using filt filter_keys_skip [OF m_rest] by simp
    have 4: "(m' \<in> fst ` set ?r \<longleftrightarrow>
               should_module_be_updated pol m'
                 (b\<lparr>policy_batches :=
                      kept @ filter (\<lambda>kv. fst kv \<in> fst ` set ?r) xs @ (m', d') # ys\<rparr>))"
      if split: "kv # rest = xs @ (m', d') # ys" for xs m' d' ys
    proof (cases xs)
      case Nil
      with split kv have "m' = m" "d' = d" "ys = rest" by simp_all
      with True Nil show ?thesis by simp
    next
      case (Cons x xs')
      with split kv have x: "x = (m, d)" and rest: "rest = xs' @ (m', d') # ys"
        by simp_all
      from rest m_rest have ne: "m' \<noteq> m" and m_xs: "m \<notin> fst ` set xs'"
        by auto
      have "filter (\<lambda>kv. fst kv \<in> fst ` set ?r) xs
              = (m, d) # filter (\<lambda>kv. fst kv \<in> fst ` set r) xs'"
        unfolding keys Cons x using filter_keys_skip [OF m_xs] by simp
      with iff [rule_format, OF rest] ne show ?thesis
        by simp
    qed
    show ?thesis
      apply (intro exI [of _ ?r] conjI allI impI)
         apply (rule 1)
        apply (rule 2)
       apply (rule 3)
      apply (rule 4)
      apply assumption
      done
  next
    case False
    from Cons.prems kv have dist: "distinct (map fst (kept @ rest))"
      by simp
    from Cons.prems kv have del: "py_delitem (kept @ (m, d) # rest) m = Inr (kept @ rest)"
      by (intro py_delitem_distinct) simp
    from Cons.IH [OF dist] obtain r
      where run: "remove_untrained pol (map fst rest) (b\<lparr>policy_batches := kept @ rest\<rparr>)
                  = Inr (b\<lparr>policy_batches := kept @ r\<rparr>)"
        and sub: "set r \<subseteq> set rest"
        and filt: "filter (\<lambda>kv. fst kv \<in> fst ` set r) rest = r"
        and iff: "\<forall>xs m' d' ys. rest = xs @ (m', d') # ys \<longrightarrow>
              (m' \<in> fst ` set r \<longleftrightarrow>
               should_module_be_updated pol m'
                 (b\<lparr>policy_batches :=
                      kept @ filter (\<lambda>kv. fst kv \<in> fst ` set r) xs @ (m', d') # ys\<rparr>))"
      by (elim exE conjE)
    from sub m_rest have m_r: "m \<notin> fst ` set r" by auto
    have 1: "remove_untrained pol (map fst (kv # rest)) (b\<lparr>policy_batches := kept @ kv # rest\<rparr>)
               = Inr (b\<lparr>policy_batches := kept @ r\<rparr>)"
      using False run kv del by simp
    have 2: "set r \<subseteq> set (kv # rest)"
      using sub by auto
    have 3: "filter (\<lambda>kv. fst kv \<in> fst ` set r) (kv # rest) = r"
      using filt m_r kv by simp
    have 4: "(m' \<in> fst ` set r \<longleftrightarrow>
               should_module_be_updated pol m'
                 (b\<lparr>policy_batches :=
                      kept @ filter (\<lambda>kv. fst kv \<in> fst ` set r) xs @ (m', d') # ys\<rparr>))"
      if split: "kv # rest = xs @ (m', d') # ys" for xs m' d' ys
    proof (cases xs)
      case Nil
      with split kv have "m' = m" "d' = d" "ys = rest" by simp_all
      with False Nil m_r show ?thesis by simp
    next
      case (Cons x xs')
      with split kv have x: "x = (m, d)" and rest: "rest = xs' @ (m', d') # ys"
        by simp_all
      have "filter (\<lambda>kv. fst kv \<in> fst ` set r) xs = filter (\<lambda>kv. fst kv \<in> fst ` set r) xs'"
        unfolding Cons x using m_r by simp
      with iff [rule_format, OF rest] show ?thesis
        by simp
    qed
    show ?thesis
      apply (intro exI [of _ r] conjI allI impI)
         apply (rule 1)
        apply (rule 2)
       apply (rule 3)
      apply (rule 4)
      apply assumption
      done
  qed
qed

text \<open>
  C6, as stated, fails: with modules \<open>A\<close> and \<open>B\<close> and a predicate that accepts \<open>B\<close> as long as
  \<open>A\<close> is in the batch, the predicate holds of \<open>B\<close> and the full batch, and yet \<open>B\<close> is dropped,
  since \<open>A\<close> has been deleted from the batch by the time \<open>B\<close> is examined.
\<close>
theorem remove_untrained_full_batch_counterexample:
  "should_module_be_updated B_while_A_present ''B'' two_module_batch \<and>
   remove_untrained B_while_A_present (map fst (policy_batches two_module_batch)) two_module_batch
     = Inr (two_module_batch\<lparr>policy_batches := []\<rparr>)"
  by (simp add: B_while_A_present_def two_module_batch_def py_in_def py_delitem_def)

text \<open>
  C6, as amended: the loop of \<open>__call__\<close> that drops the modules not to be trained succeeds
  on a batch with distinct module ids, leaves \<open>env_steps\<close> alone and keeps a sub-dict of
  \<open>policy_batches\<close> in its order. A module is kept iff \<open>_should_module_be_updated\<close> holds of
  the module id and the batch as it stands when the module is examined, that is without the
  modules dropped before it. Hence, for a policy whose answer does not depend on the batch
  (none, a collection, a constant predicate), the kept modules are those for which the policy
  holds of the module id and the full batch.
\<close>
theorem remove_untrained_modules:
  assumes "distinct (map fst (policy_batches mb))"
  shows "\<exists>out. remove_untrained pol (map fst (policy_batches mb)) mb = Inr out \<and>
           env_steps out = env_steps mb \<and>
           filter (\<lambda>kv. py_in (fst kv) (policy_batches out)) (policy_batches mb)
             = policy_batches out \<and>
           (\<forall>xs m d ys. policy_batches mb = xs @ (m, d) # ys \<longrightarrow>
              (py_in m (policy_batches out) \<longleftrightarrow>
               should_module_be_updated pol m
                 (mb\<lparr>policy_batches :=
                       filter (\<lambda>kv. py_in (fst kv) (policy_batches out)) xs @ (m, d) # ys\<rparr>))) \<and>
           ((\<forall>m b b'. should_module_be_updated pol m b = should_module_be_updated pol m b') \<longrightarrow>
              policy_batches out
                = filter (\<lambda>kv. should_module_be_updated pol (fst kv) mb) (policy_batches mb))"
proof -
  let ?pbs = "policy_batches mb"
  from assms have "distinct (map fst ([] @ ?pbs))" by simp
  from remove_untrained_inv [OF this, of pol mb] obtain r
    where run: "remove_untrained pol (map fst ?pbs) mb = Inr (mb\<lparr>policy_batches := r\<rparr>)"
      and sub: "set r \<subseteq> set ?pbs"
      and filt: "filter (\<lambda>kv. fst kv \<in> fst ` set r) ?pbs = r"
      and iff: "\<forall>xs m d ys. ?pbs = xs @ (m, d) # ys \<longrightarrow>
              (m \<in> fst ` set r \<longleftrightarrow>
               should_module_be_updated pol m
                 (mb\<lparr>policy_batches := filter (\<lambda>kv. fst kv \<in> fst ` set r) xs @ (m, d) # ys\<rparr>))"
    by (simp del: should_module_be_updated.simps) (elim exE conjE)
  let ?out = "mb\<lparr>policy_batches := r\<rparr>"
  have keys: "py_in k (policy_batches ?out) \<longleftrightarrow> k \<in> fst ` set r" for k
    by (simp add: py_in_def)
  have 3: "filter (\<lambda>kv. py_in (fst kv) (policy_batches ?out)) ?pbs = policy_batches ?out"
    unfolding keys using filt by simp
  have 4: "py_in m (policy_batches ?out) \<longleftrightarrow>
           should_module_be_updated pol m
             (mb\<lparr>policy_batches :=
                   filter (\<lambda>kv. py_in (fst kv) (policy_batches ?out)) xs @ (m, d) # ys\<rparr>)"
    if "?pbs = xs @ (m, d) # ys" for xs m d ys
    unfolding keys using iff [rule_format, OF that] .
  have 5: "policy_batches ?out
             = filter (\<lambda>kv. should_module_be_updated pol (fst kv) mb) ?pbs"
    if ins: "\<forall>m b b'. should_module_be_updated pol m b = should_module_be_updated pol m b'"
  proof -
    have "fst kv \<in> fst ` set r \<longleftrightarrow> should_module_be_updated pol (fst kv) mb"
      if "kv \<in> set ?pbs" for kv
    proof -
      from that obtain xs ys where "?pbs = xs @ kv # ys"
        by (auto simp: in_set_conv_decomp)
      then have "?pbs = xs @ (fst kv, snd kv) # ys" by simp
      from iff [rule_format, OF this] ins [rule_format, of "fst kv" _ mb]
      show ?thesis by blast
    qed
    then have "filter (\<lambda>kv. fst kv \<in> fst ` set r) ?pbs
                 = filter (\<lambda>kv. should_module_be_updated pol (fst kv) mb) ?pbs"
      by (intro filter_cong) auto
    with filt show ?thesis by simp
  qed
  show ?thesis
    apply (intro exI [of _ ?out] conjI allI impI)
        apply (rule run)
       apply simp
      apply (rule 3)
     apply (rule 4)
     apply assumption
    apply (rule 5)
    apply assumption
    done
qed

theorem remove_untrained_modules_witness:
  "remove_untrained (PoliciesCollection [''A'']) (map fst (policy_batches two_module_batch))
     two_module_batch = Inr (two_module_batch\<lparr>policy_batches := [(''A'', SampleBatch 1)]\<rparr>) \<and>
   remove_untrained PoliciesNone (map fst (policy_batches two_module_batch)) two_module_batch
     = Inr two_module_batch \<and>
   remove_untrained never_train (map fst (policy_batches two_module_batch)) two_module_batch
     = Inr (two_module_batch\<lparr>policy_batches := []\<rparr>)"
proof -
  have dist: "distinct (map fst (policy_batches two_module_batch))"
    by (simp add: two_module_batch_def)
  have out_eq: "out = two_module_batch\<lparr>policy_batches := pbs\<rparr>"
    if "env_steps out = env_steps two_module_batch" "policy_batches out = pbs"
    for out :: "nat MultiAgentBatch" and pbs
    using that by simp
  have a: "\<forall>m b b'. should_module_be_updated (PoliciesCollection [''A'']) m b
             = should_module_be_updated (PoliciesCollection [''A'']) m (b' :: nat MultiAgentBatch)"
    by simp
  have b: "\<forall>m b b'. should_module_be_updated PoliciesNone m b
             = should_module_be_updated PoliciesNone m (b' :: nat MultiAgentBatch)"
    by simp
  have c: "\<forall>m b b'. should_module_be_updated never_train m b
             = should_module_be_updated never_train m b'"
    by (simp add: never_train_def)
  from remove_untrained_modules [OF dist, of "PoliciesCollection [''A'']"] a
  obtain o1 where r1: "remove_untrained (PoliciesCollection [''A''])
                         (map fst (policy_batches two_module_batch)) two_module_batch = Inr o1"
    and e1: "env_steps o1 = env_steps two_module_batch"
    and p1: "policy_batches o1
               = filter (\<lambda>kv. should_module_be_updated (PoliciesCollection [''A'']) (fst kv)
                                two_module_batch) (policy_batches two_module_batch)"
    by blast
  from p1 have "policy_batches o1 = [(''A'', SampleBatch 1)]"
    by (simp add: two_module_batch_def)
  from out_eq [OF e1 this] r1 have 1: "remove_untrained (PoliciesCollection [''A''])
     (map fst (policy_batches two_module_batch)) two_module_batch
       = Inr (two_module_batch\<lparr>policy_batches := [(''A'', SampleBatch 1)]\<rparr>)"
    by simp
  from remove_untrained_modules [OF dist, of PoliciesNone] b
  obtain o2 where r2: "remove_untrained PoliciesNone
                         (map fst (policy_batches two_module_batch)) two_module_batch = Inr o2"
    and e2: "env_steps o2 = env_steps two_module_batch"
    and p2: "policy_batches o2
               = filter (\<lambda>kv. should_module_be_updated PoliciesNone (fst kv)
                                two_module_batch) (policy_batches two_module_batch)"
    by blast
  from p2 have "policy_batches o2 = policy_batches two_module_batch"
    by simp
  from out_eq [OF e2 this] r2 have 2: "remove_untrained PoliciesNone
     (map fst (policy_batches two_module_batch)) two_module_batch = Inr two_module_batch"
    by simp
  from remove_untrained_modules [OF dist, of never_train] c
  obtain o3 where r3: "remove_untrained never_train
                         (map fst (policy_batches two_module_batch)) two_module_batch = Inr o3"
    and e3: "env_steps o3 = env_steps two_module_batch"
    and p3: "policy_batches o3
               = filter (\<lambda>kv. should_module_be_updated never_train (fst kv)
                                two_module_batch) (policy_batches two_module_batch)"
    by blast
  from p3 have "policy_batches o3 = []"
    by (simp add: never_train_def)
  from out_eq [OF e3 this] r3 have 3: "remove_untrained never_train
     (map fst (policy_batches two_module_batch)) two_module_batch
       = Inr (two_module_batch\<lparr>policy_batches := []\<rparr>)"
    by simp
  from 1 2 3 show ?thesis by simp
qed

lemma sum_list_const_one:
  assumes "\<forall>e \<in> set xs. f e = (1::int)"
  shows "sum_list (map f xs) = int (length xs)"
  using assms by (induction xs) auto

lemma wrapped_keys:
  "map fst (map (\<lambda>(module_id, module_data). (module_id, SampleBatch module_data)) xs)
     = map fst xs"
  by (induction xs) auto

text \<open>
  C7: when the rows map to episodes and the connector pipeline returns the column data of
  the modules, \<open>__call__\<close> returns the dict with the one key \<open>"batch"\<close> holding a one-element
  list; the \<open>env_steps\<close> of the batch in it is the sum of the step counts of the episodes,
  which is the number of rows when an episode counts its observations less one.
\<close>
theorem OfflinePreLearner_call_output:
  assumes eps: "map_to_episodes C unpack (self_is_multi_agent self) batch
                  = Inr [(''episodes'', eps)]"
      and conn: "self_learner_connector self (self_module self) eps = Inr module_data"
      and dist: "distinct (map fst module_data)"
  shows "\<exists>mab. OfflinePreLearner_call C unpack env_steps_of self batch = Inr [(''batch'', [mab])] \<and>
           env_steps mab = sum_list (map env_steps_of eps) \<and>
           ((\<forall>e. env_steps_of e = int (length (observations e)) - 1) \<longrightarrow>
              (\<exists>col. py_getitem batch ''obs'' = Inr col \<and> env_steps mab = int (length col)))"
proof -
  let ?b = "\<lparr>policy_batches = map (\<lambda>(module_id, module_data).
                                      (module_id, SampleBatch module_data)) module_data,
             env_steps = sum_list (map env_steps_of eps)\<rparr>"
  have pb: "policy_batches ?b = map (\<lambda>(module_id, module_data).
                                      (module_id, SampleBatch module_data)) module_data"
    by simp
  have "distinct (map fst (policy_batches ?b))"
    unfolding pb wrapped_keys by (rule dist)
  from remove_untrained_modules [OF this, of "self_policies_to_train self"] obtain mab
    where run: "remove_untrained (self_policies_to_train self) (map fst (policy_batches ?b)) ?b
                  = Inr mab"
      and steps: "env_steps mab = env_steps ?b"
    by blast
  have call: "OfflinePreLearner_call C unpack env_steps_of self batch = Inr [(''batch'', [mab])]"
    using eps conn run
    by (simp add: OfflinePreLearner_call_def sbind_Inr py_getitem_def
        del: should_module_be_updated.simps)
  have rows: "\<exists>col. py_getitem batch ''obs'' = Inr col \<and> env_steps mab = int (length col)"
    if len: "\<forall>e. env_steps_of e = int (length (observations e)) - 1"
  proof -
    from map_to_episodes_InrD [OF eps] obtain col
      where col: "py_getitem batch ''obs'' = Inr col" and n: "length eps = length col"
        and built: "\<forall>j<length col. single_agent_episode C unpack batch j (col ! j) PyNone
                       = Inr (eps ! j)"
      by auto
    have "env_steps_of e = 1" if "e \<in> set eps" for e
    proof -
      from that obtain i where "i < length eps" and "e = eps ! i"
        by (auto simp: in_set_conv_nth)
      with n built have "single_agent_episode C unpack batch i (col ! i) PyNone = Inr e"
        by simp
      from single_agent_episode_InrD [OF this] have "length (observations e) = 2"
        by auto
      with len show ?thesis by simp
    qed
    then have "sum_list (map env_steps_of eps) = int (length eps)"
      by (intro sum_list_const_one) simp
    with steps n col show ?thesis by simp
  qed
  from call steps rows show ?thesis
    by auto
qed

theorem OfflinePreLearner_call_output_witness:
  "\<exists>mab. OfflinePreLearner_call rllib_columns (\<lambda>v. v)
            (\<lambda>e. int (length (observations e)) - 1) example_prelearner legacy_batch
          = Inr [(''batch'', [mab])] \<and> env_steps mab = 1"
proof -
  let ?ep = "\<lparr>episode_id = PyStr ''e0'', agent_id = PyNone,
             observations = [PyArr 10, PyArr 11], infos = [PyDict [], PyDict []],
             actions = [PyInt 0], rewards = [PyInt 1], terminated = PyBool True,
             truncated = PyBool False, extra_model_outputs = [],
             len_lookback_buffer = 0\<rparr> :: nat SingleAgentEpisode"
  have eps: "map_to_episodes rllib_columns (\<lambda>v. v) (self_is_multi_agent example_prelearner)
               legacy_batch = Inr [(''episodes'', [?ep])]"
    by (simp add: map_to_episodes_def sbind_def py_getitem_def legacy_batch_def
        row_agent_id_def single_agent_episode_def cell_def py_index_def py_in_def
        rllib_columns_def SCHEMA_def example_prelearner_def example_config_def)
  have conn: "self_learner_connector example_prelearner (self_module example_prelearner) [?ep]
                = Inr [(''default_policy'', 1)]"
    by (simp add: example_prelearner_def example_config_def)
  have dist: "distinct (map fst [(''default_policy'', 1::nat)])"
    by simp
  have steps: "\<forall>e :: nat SingleAgentEpisode.
                 (\<lambda>e. int (length (observations e)) - 1) e = int (length (observations e)) - 1"
    by simp
  have col: "py_getitem legacy_batch ''obs'' = Inr [PyArr 10]"
    by (simp add: py_getitem_def legacy_batch_def)
  from OfflinePreLearner_call_output [OF eps conn dist,
      of "\<lambda>e. int (length (observations e)) - 1"] steps col
  show ?thesis
    by auto
qed

lemma gather_in_range:
  assumes "\<forall>i \<in> set indices. i < length xs"
  shows "gather xs indices = Inr (map ((!) xs) indices)"
  using assms by (induction indices) (auto simp: py_index_def)

lemma same_node_scan_result:
  assumes "i + length hs \<le> length ls"
  shows "\<exists>c. same_node_scan node i hs ls chosen = Inr c \<and>
           (node \<notin> set hs \<and> c = chosen \<or>
            (\<exists>j<length hs. hs ! j = node \<and> c = Some (ls ! (i + j))))"
  using assms
proof (induction hs arbitrary: i chosen)
  case Nil
  then show ?case by simp
next
  case (Cons hint rest)
  then have bound: "Suc i + length rest \<le> length ls" and here: "i < length ls"
    by simp_all
  show ?case
  proof (cases "hint = node")
    case True
    from Cons.IH [OF bound, of "Some (ls ! i)"] obtain c
      where run: "same_node_scan node (Suc i) rest ls (Some (ls ! i)) = Inr c"
        and c: "node \<notin> set rest \<and> c = Some (ls ! i) \<or>
                (\<exists>j<length rest. rest ! j = node \<and> c = Some (ls ! (Suc i + j)))"
      by blast
    from True here run have eq: "same_node_scan node i (hint # rest) ls chosen = Inr c"
      by (simp add: py_index_def)
    from c have "\<exists>j<length (hint # rest). (hint # rest) ! j = node \<and> c = Some (ls ! (i + j))"
    proof
      assume "node \<notin> set rest \<and> c = Some (ls ! i)"
      with True show ?thesis
        by (intro exI [of _ 0]) simp
    next
      assume "\<exists>j<length rest. rest ! j = node \<and> c = Some (ls ! (Suc i + j))"
      then obtain j where "j < length rest" "rest ! j = node" "c = Some (ls ! (Suc i + j))"
        by blast
      then show ?thesis
        by (intro exI [of _ "Suc j"]) simp
    qed
    with eq show ?thesis by blast
  next
    case False
    from Cons.IH [OF bound, of chosen] obtain c
      where run: "same_node_scan node (Suc i) rest ls chosen = Inr c"
        and c: "node \<notin> set rest \<and> c = chosen \<or>
                (\<exists>j<length rest. rest ! j = node \<and> c = Some (ls ! (Suc i + j)))"
      by blast
    from False run have eq: "same_node_scan node i (hint # rest) ls chosen = Inr c"
      by simp
    from c have "node \<notin> set (hint # rest) \<and> c = chosen \<or>
       (\<exists>j<length (hint # rest). (hint # rest) ! j = node \<and> c = Some (ls ! (i + j)))"
    proof
      assume "node \<notin> set rest \<and> c = chosen"
      with False show ?thesis by auto
    next
      assume "\<exists>j<length rest. rest ! j = node \<and> c = Some (ls ! (Suc i + j))"
      then obtain j where "j < length rest" "rest ! j = node" "c = Some (ls ! (Suc i + j))"
        by blast
      then have "Suc j < length (hint # rest) \<and> (hint # rest) ! Suc j = node \<and>
                 c = Some (ls ! (i + Suc j))"
        by simp
      then show ?thesis by blast
    qed
    with eq show ?thesis by blast
  qed
qed

lemma shuffled_indices:
  assumes "mset shuffled = mset [0..<n]"
  shows "set shuffled = {0..<n}"
proof -
  from assms have "set_mset (mset shuffled) = set_mset (mset [0..<n])"
    by simp
  then show ?thesis by simp
qed

lemma shuffled_scan:
  assumes len: "length learner = length hints"
      and perm: "mset shuffled = mset [0..<length hints]"
  shows "\<exists>c. gather hints shuffled = Inr (map ((!) hints) shuffled) \<and>
           gather learner shuffled = Inr (map ((!) learner) shuffled) \<and>
           same_node_scan node 0 (map ((!) hints) shuffled) (map ((!) learner) shuffled) None
             = Inr c \<and>
           ((\<forall>j<length hints. hints ! j \<noteq> node) \<and> c = None \<or>
            (\<exists>j<length hints. hints ! j = node \<and> c = Some (learner ! j)))"
proof -
  from shuffled_indices [OF perm] have idx: "set shuffled = {0..<length hints}" .
  then have in_h: "\<forall>i \<in> set shuffled. i < length hints"
    and in_l: "\<forall>i \<in> set shuffled. i < length learner"
    using len by auto
  have "0 + length (map ((!) hints) shuffled) \<le> length (map ((!) learner) shuffled)"
    by simp
  from same_node_scan_result [OF this, of node None] obtain c
    where run: "same_node_scan node 0 (map ((!) hints) shuffled) (map ((!) learner) shuffled) None
                  = Inr c"
      and c: "node \<notin> set (map ((!) hints) shuffled) \<and> c = None \<or>
              (\<exists>j<length (map ((!) hints) shuffled).
                 map ((!) hints) shuffled ! j = node \<and>
                 c = Some (map ((!) learner) shuffled ! (0 + j)))"
    by blast
  from c have "(\<forall>j<length hints. hints ! j \<noteq> node) \<and> c = None \<or>
            (\<exists>j<length hints. hints ! j = node \<and> c = Some (learner ! j))"
  proof
    assume a: "node \<notin> set (map ((!) hints) shuffled) \<and> c = None"
    have "hints ! j \<noteq> node" if "j < length hints" for j
    proof -
      from that idx have "j \<in> set shuffled" by simp
      then have "hints ! j \<in> set (map ((!) hints) shuffled)" by simp
      with a show ?thesis by auto
    qed
    with a show ?thesis by blast
  next
    assume "\<exists>j<length (map ((!) hints) shuffled).
                 map ((!) hints) shuffled ! j = node \<and>
                 c = Some (map ((!) learner) shuffled ! (0 + j))"
    then obtain j where j: "j < length shuffled" and h: "hints ! (shuffled ! j) = node"
      and cj: "c = Some (learner ! (shuffled ! j))"
      by auto
    from j idx have "shuffled ! j < length hints"
      using nth_mem [OF j] by auto
    with h cj show ?thesis by blast
  qed
  with run gather_in_range [OF in_h] gather_in_range [OF in_l] show ?thesis
    by blast
qed

lemma select_remote_learner_no_match:
  assumes len: "length learner = length hints"
      and perm: "mset shuffled = mset [0..<length hints]"
      and none: "\<forall>j<length hints. hints ! j \<noteq> node"
  shows "select_remote_learner node shuffled drawn truthy learner (Some hints)
           = Inl (AttributeError ''_learner'')"
proof -
  from shuffled_scan [OF len perm, of node] none obtain c
    where "gather hints shuffled = Inr (map ((!) hints) shuffled)"
      and "gather learner shuffled = Inr (map ((!) learner) shuffled)"
      and "same_node_scan node 0 (map ((!) hints) shuffled) (map ((!) learner) shuffled) None
             = Inr c"
      and "c = None"
    by blast
  then show ?thesis
    by (simp add: select_remote_learner_def sbind_Inr)
qed

text \<open>
  C1: with three handles whose hints all differ from the node of this worker, the
  construction does not bind a handle: the test \<open>if not self._learner\<close> reads an attribute
  that no branch has assigned, and raises (as it does for every list without a matching
  hint, by the lemma before).
\<close>
theorem select_remote_learner_raises_without_local_hint:
  "select_remote_learner ''node-z'' [2, 0, 1] 1 (\<lambda>h. True) three_handles (Some three_hints)
     = Inl (AttributeError ''_learner'')"
  by (simp add: select_remote_learner_def sbind_def py_index_def three_handles_def
      three_hints_def)

text \<open>
  C2: when exactly one hint equals the node of this worker, the construction binds the
  handle paired with it, for every order in which the shuffle leaves the indices and every
  number the random draw would return. The handle is a Python object and counts as true in
  \<open>if not self._learner\<close>, which is the last hypothesis.
\<close>
theorem select_remote_learner_same_node:
  assumes len: "length learner = length hints"
      and perm: "mset shuffled = mset [0..<length hints]"
      and k: "k < length hints" and local: "hints ! k = node"
      and uniq: "\<forall>j<length hints. hints ! j = node \<longrightarrow> j = k"
      and truth: "truthy (learner ! k)"
  shows "select_remote_learner node shuffled drawn truthy learner (Some hints)
           = Inr (learner ! k) \<and>
         (\<exists>self. OfflinePreLearner_init node shuffled drawn truthy learner_module build set_state
                   cfg (ActorHandles learner) (Some hints) (Some spec) module_state = Inr self \<and>
                 self_learner self = RemoteLearner (learner ! k) \<and> learner_is_remote self \<and>
                 self_module self = set_state (build spec) module_state)"
proof -
  from shuffled_scan [OF len perm, of node] k local obtain c
    where g1: "gather hints shuffled = Inr (map ((!) hints) shuffled)"
      and g2: "gather learner shuffled = Inr (map ((!) learner) shuffled)"
      and run: "same_node_scan node 0 (map ((!) hints) shuffled) (map ((!) learner) shuffled) None
             = Inr c"
      and "\<exists>j<length hints. hints ! j = node \<and> c = Some (learner ! j)"
    by blast
  with uniq have c: "c = Some (learner ! k)"
    by auto
  have sel: "select_remote_learner node shuffled drawn truthy learner (Some hints)
               = Inr (learner ! k)"
    using truth by (simp add: select_remote_learner_def g1 g2 run c sbind_Inr)
  then show ?thesis
    by (simp add: OfflinePreLearner_init_def sbind_Inr)
qed

theorem select_remote_learner_same_node_witness:
  "select_remote_learner ''node-b'' [2, 0, 1] 0 (\<lambda>h. True) three_handles (Some three_hints)
     = Inr 101 \<and>
   select_remote_learner ''node-b'' [1, 2, 0] 0 (\<lambda>h. True) three_handles (Some three_hints)
     = Inr 101"
proof -
  have len: "length three_handles = length three_hints"
    by (simp add: three_handles_def three_hints_def)
  have n: "[0..<length three_hints] = [0, 1, 2]"
    by (simp add: three_hints_def upt_rec)
  have p1: "mset [2, 0, 1] = mset [0..<length three_hints]"
    unfolding n by simp
  have p2: "mset [1, 2, 0] = mset [0..<length three_hints]"
    unfolding n by simp
  have k: "1 < length three_hints" and local: "three_hints ! 1 = ''node-b''"
    by (simp_all add: three_hints_def)
  have uniq: "\<forall>j<length three_hints. three_hints ! j = ''node-b'' \<longrightarrow> j = 1"
    by (simp add: three_hints_def less_Suc_eq numeral_3_eq_3)
  have truth: "(\<lambda>h. True) (three_handles ! 1)"
    by simp
  have h: "three_handles ! 1 = 101"
    by (simp add: three_handles_def)
  from select_remote_learner_same_node [OF len p1 k local uniq truth, of 0, THEN conjunct1]
       select_remote_learner_same_node [OF len p2 k local uniq truth, of 0, THEN conjunct1] h
  show ?thesis by simp
qed

section \<open>Properties of \<open>OfflineData\<close>\<close>

text \<open>
  C4, as stated, fails: on the object that \<open>__init__\<close> leaves behind when the read raises,
  a multi-shard \<open>sample\<close> fails on \<open>self.learner_handles[0]\<close> with a \<open>TypeError\<close> about \<open>None\<close>,
  an exception that says nothing about the dataset.
\<close>
theorem sample_without_dataset_counterexample:
  "sample example_get_state example_next_batch unloaded_data 3 True 2
     = (Inl (TypeError ''NoneType object is not subscriptable''), unloaded_data, [])"
  by (simp add: sample_def unloaded_data_def OfflineData_init_def failing_read_def
      first_learner_def Let_def)

text \<open>
  C4, as amended: after a failed read in \<open>__init__\<close> (whatever handles, hints and module spec
  are set on the object afterwards), every call of \<open>sample\<close> fails and leaves the object as
  it was. Without iterator or with one shard the exception is the \<open>AttributeError\<close> of the
  attribute \<open>data\<close>, with no remote call. With several shards it is the exception of
  \<open>self.learner_handles[0]\<close>, or else the state is fetched from the first learner and the
  exception is that of the fetch or, after it, the same \<open>AttributeError\<close>.
\<close>
theorem sample_without_dataset:
  assumes failed: "read (input_read_method cfg) (cfg_input cfg)
                     (py_dict_or (default_read_method_kwargs cfg) (input_read_method_kwargs cfg))
                   = Inl err"
      and self: "self = (OfflineData_init read cfg)
                   \<lparr>locality_hints := hints, learner_handles := handles, module_spec := spec\<rparr>"
  shows "\<exists>e calls.
           sample get_state next_batch self num_samples return_iterator num_shards
             = (Inl e, self, calls) \<and>
           (\<not> (return_iterator \<and> 1 < num_shards) \<longrightarrow> e = AttributeError ''data'' \<and> calls = []) \<and>
           (return_iterator \<and> 1 < num_shards \<longrightarrow>
              first_learner self = Inl e \<and> calls = [] \<or>
              (\<exists>h. first_learner self = Inr h \<and> calls = [GetState h COMPONENT_RL_MODULE] \<and>
                 (get_state h COMPONENT_RL_MODULE = Inl e \<or>
                  (\<exists>st. get_state h COMPONENT_RL_MODULE = Inr st) \<and> e = AttributeError ''data'')))"
proof -
  from failed self have no_data: "data self = None" and no_it: "batch_iterator self = None"
    by (simp_all add: OfflineData_init_def Let_def)
  show ?thesis
  proof (cases "return_iterator \<and> 1 < num_shards")
    case False
    with no_data no_it
    have "sample get_state next_batch self num_samples return_iterator num_shards
            = (Inl (AttributeError ''data''), self, [])"
      by (auto simp: sample_def build_batch_iterator_def)
    with False show ?thesis by blast
  next
    case multi: True
    show ?thesis
    proof (cases "first_learner self")
      case (Inl e)
      with multi have "sample get_state next_batch self num_samples return_iterator num_shards
            = (Inl e, self, [])"
        by (simp add: sample_def)
      with multi Inl show ?thesis by blast
    next
      case (Inr h)
      show ?thesis
      proof (cases "get_state h COMPONENT_RL_MODULE")
        case (Inl e)
        with multi Inr
        have "sample get_state next_batch self num_samples return_iterator num_shards
                = (Inl e, self, [GetState h COMPONENT_RL_MODULE])"
          by (simp add: sample_def)
        with multi Inr Inl show ?thesis by blast
      next
        case st: (Inr st)
        with multi Inr no_data
        have "sample get_state next_batch self num_samples return_iterator num_shards
                = (Inl (AttributeError ''data''), self, [GetState h COMPONENT_RL_MODULE])"
          by (simp add: sample_def)
        with multi Inr st show ?thesis by blast
      qed
    qed
  qed
qed

theorem sample_without_dataset_witness:
  "sample example_get_state example_next_batch unloaded_data 3 False 1
     = (Inl (AttributeError ''data''), unloaded_data, []) \<and>
   sample example_get_state example_next_batch (unloaded_data\<lparr>learner_handles := Some [100]\<rparr>)
       3 True 2
     = (Inl (AttributeError ''data''), unloaded_data\<lparr>learner_handles := Some [100]\<rparr>,
        [GetState 100 COMPONENT_RL_MODULE])"
proof -
  have failed: "failing_read (input_read_method example_config) (cfg_input example_config)
                  (py_dict_or (default_read_method_kwargs example_config)
                     (input_read_method_kwargs example_config))
                = Inl (External ''FileNotFoundError'')"
    by (simp add: failing_read_def)
  have s1: "unloaded_data = (OfflineData_init failing_read example_config)
              \<lparr>locality_hints := None, learner_handles := None, module_spec := None\<rparr>"
    by (simp add: unloaded_data_def OfflineData_init_def Let_def)
  have s2: "unloaded_data\<lparr>learner_handles := Some [100]\<rparr>
              = (OfflineData_init failing_read example_config)
                  \<lparr>locality_hints := None, learner_handles := Some [100], module_spec := None\<rparr>"
    by (simp add: unloaded_data_def OfflineData_init_def Let_def)
  from sample_without_dataset [OF failed s1, of example_get_state example_next_batch 3 False 1]
  have 1: "sample example_get_state example_next_batch unloaded_data 3 False 1
             = (Inl (AttributeError ''data''), unloaded_data, [])"
    by auto
  have fl: "first_learner (unloaded_data\<lparr>learner_handles := Some [100]\<rparr>) = Inr 100"
    by (simp add: first_learner_def py_index_def)
  have gs: "example_get_state 100 COMPONENT_RL_MODULE = Inr 1100"
    by (simp add: example_get_state_def)
  from sample_without_dataset [OF failed s2, of example_get_state example_next_batch 3 True 2]
       fl gs
  have 2: "sample example_get_state example_next_batch
             (unloaded_data\<lparr>learner_handles := Some [100]\<rparr>) 3 True 2
             = (Inl (AttributeError ''data''), unloaded_data\<lparr>learner_handles := Some [100]\<rparr>,
                [GetState 100 COMPONENT_RL_MODULE])"
    by auto
  from 1 2 show ?thesis by simp
qed

text \<open>
  C8: a multi-shard \<open>sample\<close> on a loaded dataset makes one remote call, the \<open>get_state\<close> of
  the first learner, and hands its result to \<open>map_batches\<close> in the constructor arguments,
  with the whole list of handles, the locality hints and the module spec, and with
  \<open>concurrency = num_shards\<close>; each of the \<open>num_shards\<close> transform units is constructed from
  these arguments.
\<close>
theorem sample_multi_shard_fetches_once:
  assumes loaded: "data self = Some ds"
      and handles: "learner_handles self = Some (h # hs)"
      and fetched: "get_state h COMPONENT_RL_MODULE = Inr module_state"
      and shards: "1 < num_shards"
  shows "\<exists>stage.
           sample get_state next_batch self num_samples True num_shards
             = (Inr (StreamingSplit
                       \<lparr>split_dataset = stage, split_n = num_shards, split_equal = False,
                        split_locality_hints = locality_hints self\<rparr>),
                self, [GetState h COMPONENT_RL_MODULE]) \<and>
           source stage = ds \<and> concurrency stage = num_shards \<and>
           length (transform_unit_constructions stage) = nat num_shards \<and>
           (\<forall>kwargs \<in> set (transform_unit_constructions stage).
              kw_module_state kwargs = Some module_state \<and>
              kw_learner kwargs = AllLearners (Some (h # hs)) \<and>
              kw_locality_hints kwargs = locality_hints self \<and>
              kw_module_spec kwargs = module_spec self \<and>
              kw_config kwargs = config self)"
proof -
  let ?stage = "\<lparr>source = ds,
                 fn_constructor_kwargs =
                   \<lparr>kw_config = config self, kw_learner = AllLearners (learner_handles self),
                    kw_locality_hints = locality_hints self, kw_module_spec = module_spec self,
                    kw_module_state = Some module_state\<rparr>,
                 concurrency = num_shards, batch_size = num_samples, zero_copy_batch = True\<rparr>"
  from handles have first: "first_learner self = Inr h"
    by (simp add: first_learner_def py_index_def)
  from shards have "\<not> num_shards \<le> 1" by simp
  with first loaded fetched shards
  have run: "sample get_state next_batch self num_samples True num_shards
             = (Inr (StreamingSplit
                       \<lparr>split_dataset = ?stage, split_n = num_shards, split_equal = False,
                        split_locality_hints = locality_hints self\<rparr>),
                self, [GetState h COMPONENT_RL_MODULE])"
    by (simp add: sample_def)
  have units: "transform_unit_constructions ?stage
                 = replicate (nat num_shards) (fn_constructor_kwargs ?stage)"
    by (simp add: transform_unit_constructions_def)
  have each: "kw_module_state kwargs = Some module_state \<and>
              kw_learner kwargs = AllLearners (Some (h # hs)) \<and>
              kw_locality_hints kwargs = locality_hints self \<and>
              kw_module_spec kwargs = module_spec self \<and>
              kw_config kwargs = config self"
    if "kwargs \<in> set (transform_unit_constructions ?stage)" for kwargs
  proof -
    from that units have "kwargs = fn_constructor_kwargs ?stage"
      by (auto simp del: replicate.simps)
    with handles show ?thesis by simp
  qed
  have len: "length (transform_unit_constructions ?stage) = nat num_shards"
    unfolding units by simp
  show ?thesis
    apply (intro exI [of _ ?stage] conjI ballI)
            apply (rule run)
           apply simp
          apply simp
         apply (rule len)
        apply (simp_all add: each)
    done
qed

theorem sample_multi_shard_fetches_once_witness:
  "\<exists>stage. sample example_get_state example_next_batch loaded_data 3 True 4
             = (Inr (StreamingSplit
                       \<lparr>split_dataset = stage, split_n = 4, split_equal = False,
                        split_locality_hints = locality_hints loaded_data\<rparr>),
                loaded_data, [GetState 100 COMPONENT_RL_MODULE]) \<and>
           map kw_module_state (transform_unit_constructions stage)
             = [Some 1100, Some 1100, Some 1100, Some 1100]"
proof -
  have loaded: "data loaded_data = Some 55"
    by (simp add: loaded_data_def OfflineData_init_def Let_def)
  have handles: "learner_handles loaded_data = Some (100 # [101, 102, 103])"
    by (simp add: loaded_data_def)
  have fetched: "example_get_state 100 COMPONENT_RL_MODULE = Inr 1100"
    by (simp add: example_get_state_def)
  have shards: "1 < (4::int)"
    by simp
  from sample_multi_shard_fetches_once [where get_state = example_get_state
      and next_batch = example_next_batch and num_samples = 3, OF loaded handles fetched shards]
  obtain stage where run: "sample example_get_state example_next_batch loaded_data 3 True 4
             = (Inr (StreamingSplit
                       \<lparr>split_dataset = stage, split_n = 4, split_equal = False,
                        split_locality_hints = locality_hints loaded_data\<rparr>),
                loaded_data, [GetState 100 COMPONENT_RL_MODULE])"
     and len: "length (transform_unit_constructions stage) = nat 4"
     and each: "\<forall>kwargs \<in> set (transform_unit_constructions stage).
                  kw_module_state kwargs = Some 1100"
    by (elim exE conjE) simp
  from each have "map kw_module_state (transform_unit_constructions stage)
                    = replicate (length (transform_unit_constructions stage)) (Some 1100)"
    by (intro map_replicate_const [THEN [2] trans] map_cong) auto
  with len have states: "map kw_module_state (transform_unit_constructions stage)
                   = [Some 1100, Some 1100, Some 1100, Some 1100]"
    by (simp add: numeral_eq_Suc)
  show ?thesis
    apply (rule exI [of _ stage])
    apply (rule conjI)
     apply (rule run)
    apply (rule states)
    done
qed

end
